theory Spec2Isabelle
  imports Complex_Main
begin

section \<open>Shared types (types.ts)\<close>

text \<open>
  JavaScript numbers are modelled as mathematical reals (counters that only ever hold
  small non-negative integers as naturals); rounding of IEEE doubles is not modelled.
\<close>

datatype AppMode = ASSEMBLED | DISPERSED | FOCUS

datatype GestureType = NONE | FIST | OPEN_PALM | PINCH | POINT

record PhotoData =
  photo_id :: string
  url :: string
  aspectRatio :: real
  treePosition :: "real \<times> real \<times> real"
  scatterPosition :: "real \<times> real \<times> real"

record HandState =
  gesture :: GestureType
  position :: "real \<times> real"
  rotation :: real
  isPresent :: bool

text \<open>A MediaPipe landmark: the three coordinates the classifier reads.\<close>

record NormalizedLandmark =
  lm_x :: real
  lm_y :: real
  lm_z :: real

text \<open>Reading a property of \<open>undefined\<close> throws a TypeError.\<close>

datatype js_error = TypeError

section \<open>Gesture classifier (services/gestureRecognition.ts)\<close>

definition dist_lm :: "NormalizedLandmark \<Rightarrow> NormalizedLandmark \<Rightarrow> real" where
  "dist_lm p1 p2 =
     sqrt ((lm_x p1 - lm_x p2)\<^sup>2 + (lm_y p1 - lm_y p2)\<^sup>2 + (lm_z p1 - lm_z p2)\<^sup>2)"

definition avgDistToWrist :: "NormalizedLandmark list \<Rightarrow> real" where
  "avgDistToWrist landmarks =
     (let indexTip = landmarks ! 8; middleTip = landmarks ! 12;
          ringTip = landmarks ! 16; pinkyTip = landmarks ! 20;
          wrist = landmarks ! 0;
          tips = [indexTip, middleTip, ringTip, pinkyTip]
      in foldl (\<lambda>acc tip. acc + dist_lm tip wrist) 0 tips / 4)"

definition pinchDist :: "NormalizedLandmark list \<Rightarrow> real" where
  "pinchDist landmarks = (let thumbTip = landmarks ! 4; indexTip = landmarks ! 8
                          in dist_lm thumbTip indexTip)"

definition detectGesture :: "NormalizedLandmark list \<Rightarrow> GestureType" where
  "detectGesture landmarks =
     (if length landmarks < 21 then NONE
      else if avgDistToWrist landmarks < 0.4 then FIST
      else if pinchDist landmarks < 0.06 then PINCH
      else if avgDistToWrist landmarks > 0.5 then OPEN_PALM
      else NONE)"

definition calculateHandRotation :: "NormalizedLandmark list \<Rightarrow> real" where
  "calculateHandRotation landmarks =
     (let wrist = landmarks ! 0; middleMCP = landmarks ! 9;
          centerX = (lm_x wrist + lm_x middleMCP) / 2
      in (centerX - 0.5) * 2)"

section \<open>Gesture stabilizer (HandTracker, predictWebcam)\<close>

record StabilityRefs =
  stableGestureRef :: GestureType
  lastRawGestureRef :: GestureType
  gestureConsistencyCount :: nat

definition initialRefs :: StabilityRefs where
  "initialRefs =
     \<lparr>stableGestureRef = NONE, lastRawGestureRef = NONE, gestureConsistencyCount = 0\<rparr>"

text \<open>The stability logic run on a raw label while a hand is present.\<close>

definition stabilize :: "StabilityRefs \<Rightarrow> GestureType \<Rightarrow> StabilityRefs" where
  "stabilize r rawGesture =
     (let r1 = (if rawGesture = lastRawGestureRef r
                then r\<lparr>gestureConsistencyCount := gestureConsistencyCount r + 1\<rparr>
                else r\<lparr>lastRawGestureRef := rawGesture, gestureConsistencyCount := 1\<rparr>)
      in if gestureConsistencyCount r1 \<ge> 2
         then r1\<lparr>stableGestureRef := rawGesture\<rparr>
         else r1)"

text \<open>The reset run when the detector reports no hand.\<close>

definition resetStability :: "StabilityRefs \<Rightarrow> StabilityRefs" where
  "resetStability r =
     r\<lparr>gestureConsistencyCount := 0, lastRawGestureRef := NONE, stableGestureRef := NONE\<rparr>"

text \<open>
  One classification tick of \<open>predictWebcam\<close>, after its two rate gates: the argument is
  \<open>detections.landmarks\<close> (absent, or one landmark list per detected hand); the result is
  the updated refs and the HandState handed to \<open>onHandUpdate\<close>. A first hand with fewer
  than ten points makes \<open>landmarks[9].x\<close> throw before any ref is written.
\<close>

definition predictWebcam ::
  "StabilityRefs \<Rightarrow> NormalizedLandmark list list option \<Rightarrow> js_error + (StabilityRefs \<times> HandState)"
where
  "predictWebcam r detections =
     (case detections of
        Some (landmarks # _) \<Rightarrow>
          if length landmarks < 10 then Inl TypeError
          else
            let rawGesture = detectGesture landmarks;
                rot = calculateHandRotation landmarks;
                r' = stabilize r rawGesture;
                posX = 1 - lm_x (landmarks ! 9);
                posY = lm_y (landmarks ! 9)
            in Inr (r', \<lparr>gesture = stableGestureRef r', position = (posX, posY),
                         rotation = rot, isPresent = True\<rparr>)
      | _ \<Rightarrow>
          Inr (resetStability r,
               \<lparr>gesture = NONE, position = (0.5, 0.5), rotation = 0, isPresent = False\<rparr>))"

text \<open>
  A run of classification ticks seen at the level of raw labels: \<open>Some g\<close> is a tick whose
  hand was classified as \<open>g\<close>, \<open>None\<close> a tick without a hand.
\<close>

fun observe :: "StabilityRefs \<Rightarrow> GestureType option \<Rightarrow> StabilityRefs" where
  "observe r (Some rawGesture) = stabilize r rawGesture"
| "observe r None = resetStability r"

definition emitted :: "GestureType option list \<Rightarrow> GestureType" where
  "emitted ticks = stableGestureRef (foldl observe initialRefs ticks)"

section \<open>Application state (App.tsx)\<close>

record App =
  mode :: AppMode
  photos :: "PhotoData list"
  focusId :: "string option"
  nextPhotoIndex :: nat

text \<open>\<open>!focusId\<close> holds for \<open>null\<close> and for the empty string.\<close>

definition not_focusId :: "string option \<Rightarrow> bool" where
  "not_focusId f = (f = None \<or> f = Some [])"

text \<open>
  The gesture effect. \<open>photos[index]\<close> outside the array is \<open>undefined\<close>, and reading its
  \<open>id\<close> throws.
\<close>

definition gestureEffect :: "App \<Rightarrow> HandState \<Rightarrow> js_error + App" where
  "gestureEffect a handState =
     (if \<not> isPresent handState then Inr a
      else if gesture handState = FIST \<and> mode a \<noteq> ASSEMBLED
        then Inr (a\<lparr>mode := ASSEMBLED, focusId := None\<rparr>)
      else if gesture handState = OPEN_PALM
        then (if mode a = ASSEMBLED then Inr (a\<lparr>mode := DISPERSED\<rparr>)
              else if mode a = FOCUS then Inr (a\<lparr>mode := DISPERSED, focusId := None\<rparr>)
              else Inr a)
      else if gesture handState = PINCH \<and> mode a = DISPERSED
        then (if not_focusId (focusId a) \<and> length (photos a) > 0
              then
                let index = nextPhotoIndex a mod length (photos a)
                in if index < length (photos a)
                   then Inr (a\<lparr>mode := FOCUS,
                               focusId := Some (photo_id (photos a ! index)),
                               nextPhotoIndex := nextPhotoIndex a + 1\<rparr>)
                   else Inl TypeError
              else Inr a)
      else Inr a)"

definition handleDeletePhoto :: "App \<Rightarrow> string \<Rightarrow> App" where
  "handleDeletePhoto a i =
     (let a1 = a\<lparr>photos := filter (\<lambda>p. photo_id p \<noteq> i) (photos a)\<rparr>
      in if focusId a = Some i
         then a1\<lparr>mode := DISPERSED, focusId := None\<rparr>
         else a1)"

section \<open>JavaScript arithmetic used by the scheduler\<close>

text \<open>The \<open>%\<close> operator on numbers: the remainder takes the sign of the dividend.\<close>

definition js_rem :: "real \<Rightarrow> real \<Rightarrow> real" where
  "js_rem a b = a - b * of_int (if 0 \<le> a / b then \<lfloor>a / b\<rfloor> else \<lceil>a / b\<rceil>)"

text \<open>\<open>Math.atan2(y, x)\<close> over the reals (signed zeros are not modelled).\<close>

definition atan2 :: "real \<Rightarrow> real \<Rightarrow> real" where
  "atan2 y x =
     (if 0 < x then arctan (y / x)
      else if x < 0 \<and> 0 \<le> y then arctan (y / x) + pi
      else if x < 0 then arctan (y / x) - pi
      else if 0 < y then pi / 2
      else if y < 0 then - (pi / 2)
      else 0)"

section \<open>Showcase scheduler (components/PhotoCloud.tsx)\<close>

datatype Phase = COOLDOWN | ACTIVE

record ShowcaseParticipant =
  part_id :: string
  offsetAngle :: real
  launchTime :: real
  hasPresented :: bool
  originalSlotAngle :: real

text \<open>
  \<open>active\<close> is a JavaScript object used as a dictionary. It is kept as an association list
  with one entry per key; the scheduler's loops over it only ever accumulate a disjunction,
  update entries independently, or collect keys to delete, so the enumeration order of the
  keys is not observable.
\<close>

record ShowcaseSystemState =
  active :: "(string \<times> ShowcaseParticipant) list"
  systemAngle :: real
  phase :: Phase
  cooldownUntil :: real
  lapCounter :: nat

text \<open>The refs held by the PhotoCloud controller component.\<close>

record PhotoCloud =
  spinVelocity :: real
  accumulatedSpin :: real
  spinRef :: real
  prevMode :: AppMode
  showcaseSystemRef :: ShowcaseSystemState
  prevSystemAngle :: real

text \<open>The refs at mount; \<open>prevMode\<close> starts as the mode the component is mounted with.\<close>

definition initialPhotoCloud :: "AppMode \<Rightarrow> PhotoCloud" where
  "initialPhotoCloud m =
     \<lparr>spinVelocity = 0, accumulatedSpin = 0, spinRef = 0, prevMode = m,
      showcaseSystemRef =
        \<lparr>active = [], systemAngle = 0, phase = COOLDOWN, cooldownUntil = 6, lapCounter = 0\<rparr>,
      prevSystemAngle = 0\<rparr>"

text \<open>
  What one call of the frame callback receives: the props handed down from App (its mode,
  photos and focusId), the clock's elapsed time and delta, and the two values that the
  calls of \<open>Math.random()\<close> return if a showcase starts (each in \<open>[0, 1)\<close>).
\<close>

record FrameInput =
  props :: App
  elapsedTime :: real
  delta :: real
  random1 :: real
  random2 :: real

text \<open>\<open>Object.keys\<close> of the dictionary.\<close>

definition keys :: "(string \<times> 'a) list \<Rightarrow> string list" where
  "keys obj = map fst obj"

text \<open>An object literal with two computed keys: a repeated key keeps the later value.\<close>

definition object2 :: "string \<Rightarrow> 'a \<Rightarrow> string \<Rightarrow> 'a \<Rightarrow> (string \<times> 'a) list" where
  "object2 k1 v1 k2 v2 = (if k1 = k2 then [(k1, v2)] else [(k1, v1), (k2, v2)])"

definition physics :: "PhotoCloud \<Rightarrow> AppMode \<Rightarrow> real \<Rightarrow> PhotoCloud" where
  "physics c m dt =
     (let c1 = (if prevMode c \<noteq> m
                then (if m = DISPERSED \<and> prevMode c = ASSEMBLED then c\<lparr>spinVelocity := - 12\<rparr>
                      else if m = ASSEMBLED then c\<lparr>spinVelocity := 20\<rparr>
                      else if m = FOCUS then c\<lparr>spinVelocity := 0\<rparr>
                      else c)\<lparr>prevMode := m\<rparr>
                else c);
          friction = (if m = DISPERSED then 0.82 else 0.85);
          c2 = c1\<lparr>spinVelocity := spinVelocity c1 * friction\<rparr>;
          c3 = c2\<lparr>accumulatedSpin := accumulatedSpin c2 + spinVelocity c2 * dt\<rparr>
      in c3\<lparr>spinRef := accumulatedSpin c3\<rparr>)"

text \<open>
  Angular distance of a participant from the front of the camera, as computed (three
  times, inline) from the system angle and the participant's offset.
\<close>

definition presentationDist :: "real \<Rightarrow> real \<Rightarrow> real" where
  "presentationDist sysAngle offset =
     (let targetAngle = pi / 2;
          myAngle = js_rem (sysAngle + offset) (pi * 2);
          normAngle = js_rem (myAngle + pi * 2) (pi * 2);
          dist = \<bar>normAngle - targetAngle\<bar>
      in if dist > pi then 2 * pi - dist else dist)"

text \<open>Angular distance between a participant's orbit angle and its slot on the tree.\<close>

definition slotDiff :: "real \<Rightarrow> real \<Rightarrow> real \<Rightarrow> ShowcaseParticipant \<Rightarrow> real" where
  "slotDiff t spin sysAngle p =
     (let treeRot = js_rem (t * 0.1 + spin) (pi * 2);
          slotWorldAngle = js_rem (treeRot + originalSlotAngle p) (pi * 2);
          currentOrbitAngle = js_rem (sysAngle + offsetAngle p) (pi * 2);
          n1 = js_rem (currentOrbitAngle + 2 * pi) (2 * pi);
          n2 = js_rem (slotWorldAngle + 2 * pi) (2 * pi);
          diff = \<bar>n1 - n2\<bar>
      in if diff > pi then 2 * pi - diff else diff)"

text \<open>Phase COOLDOWN: start a showcase once the cooldown has passed.\<close>

definition cooldownStep :: "App \<Rightarrow> real \<Rightarrow> real \<Rightarrow> real \<Rightarrow> PhotoCloud \<Rightarrow> PhotoCloud" where
  "cooldownStep a t r1 r2 c =
     (let sys = showcaseSystemRef c in
      if t > cooldownUntil sys then
        let candidates = filter (\<lambda>p. Some (photo_id p) \<noteq> focusId a) (photos a) in
        if length candidates \<ge> 2 then
          let idx1 = nat \<lfloor>r1 * real (length candidates)\<rfloor>;
              idx2 = (idx1 + length candidates div 2) mod length candidates;
              idx2 = (if idx1 = idx2 then (idx1 + 1) mod length candidates else idx2);
              p1 = candidates ! idx1;
              p2 = candidates ! idx2;
              angle = r2 * pi * 2
          in c\<lparr>showcaseSystemRef :=
                  sys\<lparr>systemAngle := angle, phase := ACTIVE, lapCounter := 0,
                      active :=
                        object2
                          (photo_id p1)
                          \<lparr>part_id = photo_id p1, offsetAngle = 0, launchTime = t,
                           hasPresented = False,
                           originalSlotAngle =
                             atan2 (fst (treePosition p1)) (snd (snd (treePosition p1)))\<rparr>
                          (photo_id p2)
                          \<lparr>part_id = photo_id p2, offsetAngle = pi, launchTime = t + 0.7,
                           hasPresented = False,
                           originalSlotAngle =
                             atan2 (fst (treePosition p2)) (snd (snd (treePosition p2)))\<rparr>\<rparr>,
                prevSystemAngle := angle\<rparr>
        else c
      else c)"

definition inPresentationZone :: "ShowcaseSystemState \<Rightarrow> real \<Rightarrow> bool" where
  "inPresentationZone sys t =
     list_ex (\<lambda>(key, p). t \<ge> launchTime p
                \<and> presentationDist (systemAngle sys) (offsetAngle p) < 0.4
                \<and> lapCounter sys \<ge> 2)
             (active sys)"

text \<open>Lap tracking: one increment when the floor of angle / 2\<pi> went up since the last frame.\<close>

definition trackLaps :: "real \<Rightarrow> real \<Rightarrow> nat \<Rightarrow> nat" where
  "trackLaps totalRot prevRot lc =
     (let laps = \<lfloor>totalRot / (pi * 2)\<rfloor>;
          prevLaps = \<lfloor>prevRot / (pi * 2)\<rfloor>
      in if laps > prevLaps then lc + 1 else lc)"

text \<open>First loop after the angle update: mark the participants that pass the front.\<close>

definition markPresented ::
  "real \<Rightarrow> nat \<Rightarrow> real \<Rightarrow> (string \<times> ShowcaseParticipant) list
     \<Rightarrow> (string \<times> ShowcaseParticipant) list" where
  "markPresented t lc sysAngle obj =
     map (\<lambda>(key, p).
            (key, if \<not> hasPresented p \<and> t \<ge> launchTime p \<and> lc \<ge> 2
                     \<and> presentationDist sysAngle (offsetAngle p) < 0.1
                  then p\<lparr>hasPresented := True\<rparr> else p))
         obj"

text \<open>Second loop: the keys of the participants aligned with their slot (\<open>toRemove\<close>).\<close>

definition returning ::
  "real \<Rightarrow> real \<Rightarrow> bool \<Rightarrow> real \<Rightarrow> (string \<times> ShowcaseParticipant) list \<Rightarrow> string list" where
  "returning t spin zone sysAngle obj =
     keys (filter (\<lambda>(key, p). hasPresented p \<and> \<not> zone \<and> slotDiff t spin sysAngle p < 0.3) obj)"

text \<open>Cleanup: delete the returning keys; an empty dictionary schedules the next run.\<close>

definition cleanup :: "real \<Rightarrow> string list \<Rightarrow> ShowcaseSystemState \<Rightarrow> ShowcaseSystemState" where
  "cleanup t toRemove sys =
     (if length toRemove > 0
      then let remaining = filter (\<lambda>(key, p). key \<notin> set toRemove) (active sys)
           in if length (keys remaining) = 0
              then sys\<lparr>active := remaining, phase := COOLDOWN, cooldownUntil := t + 6\<rparr>
              else sys\<lparr>active := remaining\<rparr>
      else sys)"

text \<open>Phase ACTIVE: advance the orbit, count laps, mark presentations, return to the tree.\<close>

definition activeStep :: "real \<Rightarrow> real \<Rightarrow> PhotoCloud \<Rightarrow> PhotoCloud" where
  "activeStep t dt c =
     (let sys = showcaseSystemRef c;
          zone = inPresentationZone sys t;
          targetSpeed = (if zone then 0.3 else 2.5);
          totalRot = systemAngle sys + targetSpeed * dt;
          lc = trackLaps totalRot (prevSystemAngle c) (lapCounter sys);
          marked = markPresented t lc totalRot (active sys);
          toRemove = returning t (spinRef c) zone totalRot marked;
          sys1 = sys\<lparr>systemAngle := totalRot, lapCounter := lc, active := marked\<rparr>
      in c\<lparr>showcaseSystemRef := cleanup t toRemove sys1, prevSystemAngle := totalRot\<rparr>)"

text \<open>The frame callback of the controller.\<close>

definition useFrame :: "PhotoCloud \<Rightarrow> FrameInput \<Rightarrow> PhotoCloud" where
  "useFrame c f =
     (let a = props f;
          t = elapsedTime f;
          c1 = physics c (mode a) (delta f)
      in if mode a = ASSEMBLED \<and> length (photos a) \<ge> 2
         then (case phase (showcaseSystemRef c1) of
                 COOLDOWN \<Rightarrow> cooldownStep a t (random1 f) (random2 f) c1
               | ACTIVE \<Rightarrow> activeStep t (delta f) c1)
         else c1\<lparr>showcaseSystemRef :=
                   (showcaseSystemRef c1)\<lparr>active := [], phase := COOLDOWN, lapCounter := 0,
                                           cooldownUntil := t + 6\<rparr>\<rparr>)"

text \<open>Successive frames.\<close>

definition run :: "PhotoCloud \<Rightarrow> FrameInput list \<Rightarrow> PhotoCloud" where
  "run c fs = foldl useFrame c fs"

section \<open>Scheduler invariant and runs that stay active\<close>

text \<open>
  The invariant of the showcase state: one entry per key, nothing active during
  COOLDOWN, one or two participants during ACTIVE.
\<close>

definition showcaseInv :: "ShowcaseSystemState \<Rightarrow> bool" where
  "showcaseInv sys =
     (distinct (keys (active sys))
      \<and> (phase sys = COOLDOWN \<longrightarrow> length (keys (active sys)) = 0)
      \<and> (phase sys = ACTIVE \<longrightarrow> length (keys (active sys)) = 1 \<or> length (keys (active sys)) = 2))"

text \<open>
  A run of frames each of which is handled by the ACTIVE branch (mode ASSEMBLED, at least
  two photos, phase ACTIVE when the frame begins) with a non-negative delta small enough
  that even the normal speed of 2.5 advances the orbit by less than a full turn.
\<close>

fun staysActive :: "PhotoCloud \<Rightarrow> FrameInput list \<Rightarrow> bool" where
  "staysActive c [] = True"
| "staysActive c (f # fs) =
     (mode (props f) = ASSEMBLED \<and> length (photos (props f)) \<ge> 2
      \<and> phase (showcaseSystemRef c) = ACTIVE
      \<and> 0 \<le> delta f \<and> 2.5 * delta f < 2 * pi
      \<and> staysActive (useFrame c f) fs)"

text \<open>
  The time a run of frames covers, and the runs none of whose frames is sampled inside
  the presentation zone (the flag is taken once per frame, before the angle moves).
\<close>

definition elapsed :: "FrameInput list \<Rightarrow> real" where
  "elapsed fs = sum_list (map delta fs)"

fun zoneFree :: "PhotoCloud \<Rightarrow> FrameInput list \<Rightarrow> bool" where
  "zoneFree c [] = True"
| "zoneFree c (f # fs) =
     (\<not> inPresentationZone (showcaseSystemRef c) (elapsedTime f)
      \<and> zoneFree (useFrame c f) fs)"

section \<open>Sample data\<close>

definition origin :: NormalizedLandmark where
  "origin = \<lparr>lm_x = 0.5, lm_y = 0.5, lm_z = 0\<rparr>"

definition photo :: "string \<Rightarrow> PhotoData" where
  "photo i = \<lparr>photo_id = i, url = [], aspectRatio = 1,
              treePosition = (0, 0, 1), scatterPosition = (0, 0, 6)\<rparr>"

definition pinchHand :: HandState where
  "pinchHand = \<lparr>gesture = PINCH, position = (0.5, 0.5), rotation = 0, isPresent = True\<rparr>"

text \<open>
  A gallery of two photos whose tree slots lie at polar angles 0 and \<pi>, frames over it,
  and the state of a showcase started at time \<open>t0\<close> over it.
\<close>

definition slotPhoto :: "string \<Rightarrow> real \<Rightarrow> PhotoData" where
  "slotPhoto i z = \<lparr>photo_id = i, url = [], aspectRatio = 1,
                    treePosition = (0, 0, z), scatterPosition = (0, 0, 6)\<rparr>"

definition gallery :: App where
  "gallery = \<lparr>mode = ASSEMBLED, photos = [slotPhoto ''A'' 1, slotPhoto ''B'' (- 1)],
              focusId = None, nextPhotoIndex = 0\<rparr>"

definition frame :: "real \<Rightarrow> real \<Rightarrow> FrameInput" where
  "frame t dt = \<lparr>props = gallery, elapsedTime = t, delta = dt, random1 = 0, random2 = 0\<rparr>"

definition frameIn :: "AppMode \<Rightarrow> real \<Rightarrow> real \<Rightarrow> FrameInput" where
  "frameIn m t dt = \<lparr>props = gallery\<lparr>mode := m\<rparr>, elapsedTime = t, delta = dt,
                      random1 = 0, random2 = 0\<rparr>"

definition partA :: "real \<Rightarrow> bool \<Rightarrow> ShowcaseParticipant" where
  "partA t0 pr = \<lparr>part_id = ''A'', offsetAngle = 0, launchTime = t0,
                   hasPresented = pr, originalSlotAngle = 0\<rparr>"

definition partB :: "real \<Rightarrow> bool \<Rightarrow> ShowcaseParticipant" where
  "partB t0 pr = \<lparr>part_id = ''B'', offsetAngle = pi, launchTime = t0 + 0.7,
                   hasPresented = pr, originalSlotAngle = pi\<rparr>"

definition orbiting :: "real \<Rightarrow> real \<Rightarrow> nat \<Rightarrow> PhotoCloud" where
  "orbiting t0 ang lc =
     \<lparr>spinVelocity = 0, accumulatedSpin = 0, spinRef = 0, prevMode = ASSEMBLED,
      showcaseSystemRef =
        \<lparr>active = [(''A'', partA t0 False), (''B'', partB t0 False)],
         systemAngle = ang, phase = ACTIVE, cooldownUntil = 6, lapCounter = lc\<rparr>,
      prevSystemAngle = ang\<rparr>"

text \<open>
  The same showcase once A has been marked as presented, and three frames that bring a
  showcase started at time 41\<pi>/5 to the angle 13\<pi>/3 with two laps counted.
\<close>

definition presenting :: "real \<Rightarrow> real \<Rightarrow> nat \<Rightarrow> PhotoCloud" where
  "presenting t0 ang lc =
     \<lparr>spinVelocity = 0, accumulatedSpin = 0, spinRef = 0, prevMode = ASSEMBLED,
      showcaseSystemRef =
        \<lparr>active = [(''A'', partA t0 True), (''B'', partB t0 False)],
         systemAngle = ang, phase = ACTIVE, cooldownUntil = 6, lapCounter = lc\<rparr>,
      prevSystemAngle = ang\<rparr>"

definition warmup :: "FrameInput list" where
  "warmup = [frame (41 * pi / 5) 0.016, frame (46 * pi / 5) pi,
             frame (149 * pi / 15) (11 * pi / 15)]"

section \<open>Gesture pipeline and mode machine: verified properties\<close>

lemma avgDistToWrist_mean:
  "avgDistToWrist lms =
     (dist_lm (lms ! 8) (lms ! 0) + dist_lm (lms ! 12) (lms ! 0)
      + dist_lm (lms ! 16) (lms ! 0) + dist_lm (lms ! 20) (lms ! 0)) / 4"
  by (simp add: avgDistToWrist_def Let_def)

text \<open>
  C3. A sample of at least 21 landmarks whose mean distance from the wrist (point 0) to the
  four non-thumb fingertips (points 8, 12, 16, 20) is below 0.4 is classified FIST, whatever
  the distance between thumb tip and index tip.
\<close>

theorem fist_has_priority:
  assumes "21 \<le> length lms"
    and "(dist_lm (lms ! 8) (lms ! 0) + dist_lm (lms ! 12) (lms ! 0)
          + dist_lm (lms ! 16) (lms ! 0) + dist_lm (lms ! 20) (lms ! 0)) / 4 < 0.4"
  shows "detectGesture lms = FIST"
  using assms by (simp add: detectGesture_def avgDistToWrist_mean)

theorem fist_has_priority_witness:
  "pinchDist (replicate 21 origin) < 0.06 \<and> detectGesture (replicate 21 origin) = FIST"
proof -
  have d: "dist_lm origin origin = 0" by (simp add: dist_lm_def)
  have n: "\<And>i. i < 21 \<Longrightarrow> replicate 21 origin ! i = origin" by simp
  have "detectGesture (replicate 21 origin) = FIST"
    using fist_has_priority [of "replicate 21 origin"] by (simp add: d)
  moreover have "pinchDist (replicate 21 origin) < 0.06"
    by (simp add: pinchDist_def d)
  ultimately show ?thesis by simp
qed

lemma observe_last:
  "foldl observe initialRefs es = r \<Longrightarrow>
     (case (if es = [] then None else last es) of
        None \<Rightarrow> r = initialRefs
      | Some a \<Rightarrow> lastRawGestureRef r = a \<and> 1 \<le> gestureConsistencyCount r)"
proof (induction es arbitrary: r rule: rev_induct)
  case Nil
  then show ?case by simp
next
  case (snoc e es)
  then show ?case
    by (cases e) (auto simp: stabilize_def resetStability_def initialRefs_def Let_def)
qed

lemma stabilize_stable:
  "stableGestureRef (stabilize r a) =
     (if a = lastRawGestureRef r \<and> 1 \<le> gestureConsistencyCount r then a
      else stableGestureRef r)"
  by (simp add: stabilize_def Let_def)

text \<open>
  C4. After any run of ticks, one more tick with raw label \<open>a\<close> makes \<open>a\<close> the emitted
  stable label exactly when the tick before it also had raw label \<open>a\<close>; otherwise the
  emitted label stays what it was. So a label seen on a single tick never changes the
  output, and a label seen on two consecutive ticks always does.
\<close>

theorem stable_label_needs_two:
  "emitted (es @ [Some a]) =
     (if es \<noteq> [] \<and> last es = Some a then a else emitted es)"
proof -
  define r where "r = foldl observe initialRefs es"
  have step: "emitted (es @ [Some a]) = stableGestureRef (stabilize r a)"
    by (simp add: emitted_def r_def)
  have prev: "emitted es = stableGestureRef r"
    by (simp add: emitted_def r_def)
  have inv: "case (if es = [] then None else last es) of
        None \<Rightarrow> r = initialRefs
      | Some b \<Rightarrow> lastRawGestureRef r = b \<and> 1 \<le> gestureConsistencyCount r"
    using observe_last [of es r] by (simp add: r_def)
  show ?thesis
  proof (cases "if es = [] then None else last es")
    case None
    with inv have "r = initialRefs" by simp
    moreover from None have "\<not> (es \<noteq> [] \<and> last es = Some a)"
      by (auto split: if_splits)
    ultimately show ?thesis
      unfolding step prev by (auto simp add: stabilize_stable initialRefs_def)
  next
    case (Some b)
    with inv have "lastRawGestureRef r = b" "1 \<le> gestureConsistencyCount r" by simp_all
    moreover from Some have "es \<noteq> []" "last es = Some b"
      by (auto split: if_splits)
    ultimately show ?thesis
      unfolding step prev by (auto simp add: stabilize_stable)
  qed
qed

theorem stable_label_needs_two_witness:
  "emitted [Some OPEN_PALM, Some OPEN_PALM, Some PINCH] = OPEN_PALM
   \<and> emitted [Some OPEN_PALM, Some OPEN_PALM, Some PINCH, Some PINCH] = PINCH"
  using stable_label_needs_two [of "[Some OPEN_PALM, Some OPEN_PALM]" PINCH]
    stable_label_needs_two [of "[Some OPEN_PALM, Some OPEN_PALM, Some PINCH]" PINCH]
    stable_label_needs_two [of "[Some OPEN_PALM]" OPEN_PALM]
  by simp

text \<open>
  C5. A tick without hand landmarks (no landmark array, or an empty one) resets the
  counter to 0 and both labels to NONE at once, from any state, and emits gesture NONE,
  isPresent false, position (0.5, 0.5) and rotation 0.
\<close>

theorem hand_loss_resets:
  "predictWebcam r None =
     Inr (\<lparr>stableGestureRef = NONE, lastRawGestureRef = NONE, gestureConsistencyCount = 0\<rparr>,
          \<lparr>gesture = NONE, position = (0.5, 0.5), rotation = 0, isPresent = False\<rparr>)
   \<and> predictWebcam r (Some []) =
     Inr (\<lparr>stableGestureRef = NONE, lastRawGestureRef = NONE, gestureConsistencyCount = 0\<rparr>,
          \<lparr>gesture = NONE, position = (0.5, 0.5), rotation = 0, isPresent = False\<rparr>)"
  by (simp add: predictWebcam_def resetStability_def)

theorem hand_loss_resets_witness:
  "predictWebcam
     \<lparr>stableGestureRef = PINCH, lastRawGestureRef = PINCH, gestureConsistencyCount = 7\<rparr>
     (Some []) =
   Inr (initialRefs,
        \<lparr>gesture = NONE, position = (0.5, 0.5), rotation = 0, isPresent = False\<rparr>)"
  using hand_loss_resets
    [of "\<lparr>stableGestureRef = PINCH, lastRawGestureRef = PINCH, gestureConsistencyCount = 7\<rparr>"]
  by (simp add: initialRefs_def)

text \<open>
  C6. In mode DISPERSED with no focus and a present hand showing PINCH: with a non-empty
  pool the mode becomes FOCUS, the focus is the item at index cursor mod pool size and the
  cursor advances by one; with an empty pool nothing changes.
\<close>

theorem pinch_selects_round_robin:
  assumes "mode a = DISPERSED" and "focusId a = None"
    and "isPresent h" and "gesture h = PINCH"
  shows "(photos a \<noteq> [] \<longrightarrow>
            gestureEffect a h =
              Inr (a\<lparr>mode := FOCUS,
                     focusId := Some (photo_id (photos a ! (nextPhotoIndex a mod length (photos a)))),
                     nextPhotoIndex := nextPhotoIndex a + 1\<rparr>))
       \<and> (photos a = [] \<longrightarrow> gestureEffect a h = Inr a)"
  using assms by (simp add: gestureEffect_def not_focusId_def Let_def)

theorem pinch_selects_round_robin_witness:
  "gestureEffect
     \<lparr>mode = DISPERSED, photos = [photo ''P0'', photo ''P1'', photo ''P2''],
      focusId = None, nextPhotoIndex = 0\<rparr> pinchHand
   = Inr \<lparr>mode = FOCUS, photos = [photo ''P0'', photo ''P1'', photo ''P2''],
          focusId = Some ''P0'', nextPhotoIndex = 1\<rparr>
   \<and> gestureEffect \<lparr>mode = DISPERSED, photos = [], focusId = None, nextPhotoIndex = 4\<rparr> pinchHand
   = Inr \<lparr>mode = DISPERSED, photos = [], focusId = None, nextPhotoIndex = 4\<rparr>"
  using pinch_selects_round_robin
    [of "\<lparr>mode = DISPERSED, photos = [photo ''P0'', photo ''P1'', photo ''P2''],
          focusId = None, nextPhotoIndex = 0\<rparr>" pinchHand]
    pinch_selects_round_robin
    [of "\<lparr>mode = DISPERSED, photos = [], focusId = None, nextPhotoIndex = 4\<rparr>" pinchHand]
  by (simp add: pinchHand_def photo_def)

text \<open>
  C9. Deleting the focused item sets the mode to DISPERSED and clears the focus; deleting
  any other item leaves mode and focus as they were. Either way the item leaves the pool.
\<close>

theorem delete_focused_disperses:
  "(focusId a = Some i \<longrightarrow>
      mode (handleDeletePhoto a i) = DISPERSED \<and> focusId (handleDeletePhoto a i) = None)
   \<and> (focusId a \<noteq> Some i \<longrightarrow>
      mode (handleDeletePhoto a i) = mode a \<and> focusId (handleDeletePhoto a i) = focusId a)
   \<and> photos (handleDeletePhoto a i) = filter (\<lambda>p. photo_id p \<noteq> i) (photos a)"
  by (simp add: handleDeletePhoto_def Let_def)

theorem delete_focused_disperses_witness:
  "mode (handleDeletePhoto
      \<lparr>mode = FOCUS, photos = [photo ''P0'', photo ''P1''], focusId = Some ''P1'',
       nextPhotoIndex = 2\<rparr> ''P1'') = DISPERSED
   \<and> focusId (handleDeletePhoto
      \<lparr>mode = FOCUS, photos = [photo ''P0'', photo ''P1''], focusId = Some ''P1'',
       nextPhotoIndex = 2\<rparr> ''P1'') = None
   \<and> mode (handleDeletePhoto
      \<lparr>mode = FOCUS, photos = [photo ''P0'', photo ''P1''], focusId = Some ''P1'',
       nextPhotoIndex = 2\<rparr> ''P0'') = FOCUS
   \<and> focusId (handleDeletePhoto
      \<lparr>mode = FOCUS, photos = [photo ''P0'', photo ''P1''], focusId = Some ''P1'',
       nextPhotoIndex = 2\<rparr> ''P0'') = Some ''P1''"
  using delete_focused_disperses
    [of "\<lparr>mode = FOCUS, photos = [photo ''P0'', photo ''P1''], focusId = Some ''P1'',
          nextPhotoIndex = 2\<rparr>" "''P1''"]
    delete_focused_disperses
    [of "\<lparr>mode = FOCUS, photos = [photo ''P0'', photo ''P1''], focusId = Some ''P1'',
          nextPhotoIndex = 2\<rparr>" "''P0''"]
  by simp

text \<open>
  C10. Deleting an item leaves the cursor untouched, the gesture effect never throws and
  moves the cursor by 0 or 1 and never back, and every PINCH-triggered selection reads the
  pool at cursor mod pool size, which lies inside the pool for every cursor value.
\<close>

theorem cursor_index_in_bounds:
  "nextPhotoIndex (handleDeletePhoto a i) = nextPhotoIndex a
   \<and> (\<exists>a'. gestureEffect a h = Inr a'
            \<and> nextPhotoIndex a \<le> nextPhotoIndex a'
            \<and> nextPhotoIndex a' \<le> nextPhotoIndex a + 1)
   \<and> (isPresent h \<and> gesture h = PINCH \<and> mode a = DISPERSED
        \<and> not_focusId (focusId a) \<and> photos a \<noteq> [] \<longrightarrow>
        nextPhotoIndex a mod length (photos a) < length (photos a)
        \<and> gestureEffect a h =
            Inr (a\<lparr>mode := FOCUS,
                   focusId := Some (photo_id (photos a ! (nextPhotoIndex a mod length (photos a)))),
                   nextPhotoIndex := nextPhotoIndex a + 1\<rparr>))"
  by (simp add: handleDeletePhoto_def gestureEffect_def Let_def)

theorem cursor_index_in_bounds_witness:
  "gestureEffect
     (handleDeletePhoto
        \<lparr>mode = DISPERSED, photos = [photo ''P0'', photo ''P1'', photo ''P2''],
         focusId = None, nextPhotoIndex = 5\<rparr> ''P2'') pinchHand
   = Inr \<lparr>mode = FOCUS, photos = [photo ''P0'', photo ''P1''],
          focusId = Some ''P1'', nextPhotoIndex = 6\<rparr>"
proof -
  let ?a = "\<lparr>mode = DISPERSED, photos = [photo ''P0'', photo ''P1'', photo ''P2''],
         focusId = None, nextPhotoIndex = 5\<rparr>"
  have d: "handleDeletePhoto ?a ''P2'' =
      \<lparr>mode = DISPERSED, photos = [photo ''P0'', photo ''P1''],
         focusId = None, nextPhotoIndex = 5\<rparr>"
    by (simp add: handleDeletePhoto_def photo_def)
  have "(5::nat) mod 2 = 1" by simp
  then have m: "(5::nat) mod Suc (Suc 0) = Suc 0" by (simp only: numeral_2_eq_2 One_nat_def)
  show ?thesis
    using cursor_index_in_bounds [of "handleDeletePhoto ?a ''P2''" "''P2''" pinchHand]
    unfolding d by (simp add: pinchHand_def not_focusId_def photo_def m)
qed

section \<open>Showcase scheduler: verified properties\<close>

subsection \<open>The invariant is kept by every frame\<close>

lemma physics_showcase [simp]:
  "showcaseSystemRef (physics c m dt) = showcaseSystemRef c"
  "prevSystemAngle (physics c m dt) = prevSystemAngle c"
  by (simp_all add: physics_def Let_def)

lemma inv_cooldownStep:
  assumes "showcaseInv (showcaseSystemRef c)"
  shows "showcaseInv (showcaseSystemRef (cooldownStep a t r1 r2 c))"
  using assms
  by (simp add: cooldownStep_def Let_def showcaseInv_def object2_def keys_def)

lemma keys_markPresented [simp]:
  "keys (markPresented t lc ang obj) = keys obj"
  by (induction obj) (auto simp: keys_def markPresented_def)

lemma keys_filter:
  "distinct (keys xs) \<Longrightarrow> distinct (keys (filter P xs))"
  "length (keys (filter P xs)) \<le> length (keys xs)"
  by (simp_all add: keys_def distinct_map_filter)

lemma inv_cleanup:
  assumes "distinct (keys (active sys))" and "phase sys = ACTIVE"
    and "length (keys (active sys)) = 1 \<or> length (keys (active sys)) = 2"
  shows "showcaseInv (cleanup t tr sys)"
proof (cases "length tr > 0")
  case False
  with assms show ?thesis by (simp add: cleanup_def showcaseInv_def)
next
  case True
  let ?rem = "filter (\<lambda>(key, p). key \<notin> set tr) (active sys)"
  have d: "distinct (keys ?rem)" using assms(1) by (rule keys_filter(1))
  have "length (keys ?rem) \<le> length (keys (active sys))" by (rule keys_filter(2))
  with assms(3) have l: "length (keys ?rem) \<le> 2" by auto
  show ?thesis
  proof (cases "length (keys ?rem) = 0")
    case True
    with \<open>length tr > 0\<close> show ?thesis
      by (simp add: cleanup_def showcaseInv_def Let_def)
  next
    case False
    with l have "length (keys ?rem) = 1 \<or> length (keys ?rem) = 2" by arith
    with False \<open>length tr > 0\<close> d assms(2) show ?thesis
      by (simp add: cleanup_def showcaseInv_def Let_def)
  qed
qed

lemma inv_activeStep:
  assumes "showcaseInv (showcaseSystemRef c)" and "phase (showcaseSystemRef c) = ACTIVE"
  shows "showcaseInv (showcaseSystemRef (activeStep t dt c))"
proof -
  from assms have d: "distinct (keys (active (showcaseSystemRef c)))"
    and l: "length (keys (active (showcaseSystemRef c))) = 1
            \<or> length (keys (active (showcaseSystemRef c))) = 2"
    by (simp_all add: showcaseInv_def)
  have "\<exists>tr ang lc. showcaseSystemRef (activeStep t dt c) =
      cleanup t tr ((showcaseSystemRef c)\<lparr>systemAngle := ang, lapCounter := lc,
          active := markPresented t lc ang (active (showcaseSystemRef c))\<rparr>)"
    unfolding activeStep_def Let_def by (intro exI) simp
  then obtain tr ang lc where e: "showcaseSystemRef (activeStep t dt c) =
      cleanup t tr ((showcaseSystemRef c)\<lparr>systemAngle := ang, lapCounter := lc,
          active := markPresented t lc ang (active (showcaseSystemRef c))\<rparr>)"
    by blast
  show ?thesis
    unfolding e by (rule inv_cleanup) (use d l assms(2) in simp_all)
qed

lemma inv_useFrame:
  assumes "showcaseInv (showcaseSystemRef c)"
  shows "showcaseInv (showcaseSystemRef (useFrame c f))"
proof (cases "mode (props f) = ASSEMBLED \<and> length (photos (props f)) \<ge> 2")
  case False
  then show ?thesis
    by (auto simp add: useFrame_def Let_def showcaseInv_def keys_def)
next
  case True
  show ?thesis
  proof (cases "phase (showcaseSystemRef c)")
    case COOLDOWN
    with True assms show ?thesis
      using inv_cooldownStep [of "physics c (mode (props f)) (delta f)"]
      by (simp add: useFrame_def Let_def)
  next
    case ACTIVE
    with True assms show ?thesis
      using inv_activeStep [of "physics c (mode (props f)) (delta f)"]
      by (simp add: useFrame_def Let_def)
  qed
qed

lemma inv_run:
  "showcaseInv (showcaseSystemRef c) \<Longrightarrow> showcaseInv (showcaseSystemRef (run c fs))"
  unfolding run_def
  by (induction fs arbitrary: c) (simp_all add: inv_useFrame)

lemma inv_initial: "showcaseInv (showcaseSystemRef (initialPhotoCloud m))"
  by (simp add: initialPhotoCloud_def showcaseInv_def keys_def)

subsection \<open>Evaluating frames over the sample gallery\<close>

lemma start_frame:
  assumes "6 < t"
  shows "useFrame (initialPhotoCloud ASSEMBLED) (frame t dt) = orbiting t 0 0"
proof -
  have a: "atan2 0 1 = 0" "atan2 0 (- 1) = pi" by (simp_all add: atan2_def)
  show ?thesis
    using assms
    by (simp add: useFrame_def frame_def gallery_def Let_def physics_def initialPhotoCloud_def
        cooldownStep_def slotPhoto_def object2_def orbiting_def partA_def partB_def a)
qed

subsection \<open>Lap counting\<close>

lemma cleanup_keeps [simp]:
  "lapCounter (cleanup t tr sys) = lapCounter sys"
  "systemAngle (cleanup t tr sys) = systemAngle sys"
  by (simp_all add: cleanup_def Let_def)

lemma activeStep_angle:
  "systemAngle (showcaseSystemRef (activeStep t dt c)) =
     systemAngle (showcaseSystemRef c)
       + (if inPresentationZone (showcaseSystemRef c) t then 0.3 else 2.5) * dt"
  "prevSystemAngle (activeStep t dt c) = systemAngle (showcaseSystemRef (activeStep t dt c))"
  by (simp_all add: activeStep_def Let_def)

lemma activeStep_lapCounter:
  "lapCounter (showcaseSystemRef (activeStep t dt c)) =
     trackLaps (systemAngle (showcaseSystemRef (activeStep t dt c))) (prevSystemAngle c)
       (lapCounter (showcaseSystemRef c))"
  by (simp add: activeStep_def Let_def)

lemma trackLaps_small:
  assumes "0 \<le> d" and "d < 2 * pi"
  shows "int (trackLaps (a + d) a lc) = int lc + \<lfloor>(a + d) / (2 * pi)\<rfloor> - \<lfloor>a / (2 * pi)\<rfloor>"
proof -
  have p: "0 < 2 * pi" by simp
  have lo: "a / (2 * pi) \<le> (a + d) / (2 * pi)"
    using assms(1) p by (simp add: divide_le_cancel)
  have "(a + d) / (2 * pi) = a / (2 * pi) + d / (2 * pi)" by (simp add: add_divide_distrib)
  moreover have "d / (2 * pi) < 1" using assms(2) p by simp
  ultimately have hi: "(a + d) / (2 * pi) < a / (2 * pi) + 1" by simp
  have f1: "\<lfloor>a / (2 * pi)\<rfloor> \<le> \<lfloor>(a + d) / (2 * pi)\<rfloor>" using lo by (rule floor_mono)
  have f2: "\<lfloor>(a + d) / (2 * pi)\<rfloor> \<le> \<lfloor>a / (2 * pi)\<rfloor> + 1"
  proof -
    have "\<lfloor>(a + d) / (2 * pi)\<rfloor> \<le> \<lfloor>a / (2 * pi) + 1\<rfloor>"
      using hi by (intro floor_mono) simp
    then show ?thesis by simp
  qed
  have m: "pi * 2 = 2 * pi" by simp
  show ?thesis
    unfolding trackLaps_def Let_def m using f1 f2 by auto
qed

lemma useFrame_active:
  assumes "mode (props f) = ASSEMBLED" and "length (photos (props f)) \<ge> 2"
    and "phase (showcaseSystemRef c) = ACTIVE"
  shows "useFrame c f = activeStep (elapsedTime f) (delta f) (physics c (mode (props f)) (delta f))"
  using assms by (simp add: useFrame_def Let_def)

lemma active_step_counts:
  assumes prev: "prevSystemAngle c = systemAngle (showcaseSystemRef c)"
    and act: "mode (props f) = ASSEMBLED" "length (photos (props f)) \<ge> 2"
      "phase (showcaseSystemRef c) = ACTIVE"
    and dt: "0 \<le> delta f" "2.5 * delta f < 2 * pi"
  shows "int (lapCounter (showcaseSystemRef (useFrame c f))) =
           int (lapCounter (showcaseSystemRef c))
           + \<lfloor>systemAngle (showcaseSystemRef (useFrame c f)) / (2 * pi)\<rfloor>
           - \<lfloor>systemAngle (showcaseSystemRef c) / (2 * pi)\<rfloor>"
    and "prevSystemAngle (useFrame c f) = systemAngle (showcaseSystemRef (useFrame c f))"
proof -
  let ?c1 = "physics c (mode (props f)) (delta f)"
  let ?v = "if inPresentationZone (showcaseSystemRef c) (elapsedTime f) then 0.3 else 2.5 :: real"
  have u: "useFrame c f = activeStep (elapsedTime f) (delta f) ?c1"
    using act by (rule useFrame_active)
  have ang: "systemAngle (showcaseSystemRef (useFrame c f)) =
      systemAngle (showcaseSystemRef c) + ?v * delta f"
    unfolding u by (simp add: activeStep_angle)
  have d0: "0 \<le> ?v * delta f" using dt(1) by simp
  have "?v * delta f \<le> 2.5 * delta f" using dt(1) by (simp add: mult_right_mono)
  with dt(2) have d1: "?v * delta f < 2 * pi" by linarith
  have "lapCounter (showcaseSystemRef (useFrame c f)) =
      trackLaps (systemAngle (showcaseSystemRef c) + ?v * delta f)
        (systemAngle (showcaseSystemRef c)) (lapCounter (showcaseSystemRef c))"
    unfolding u activeStep_lapCounter activeStep_angle using prev by simp
  then show "int (lapCounter (showcaseSystemRef (useFrame c f))) =
           int (lapCounter (showcaseSystemRef c))
           + \<lfloor>systemAngle (showcaseSystemRef (useFrame c f)) / (2 * pi)\<rfloor>
           - \<lfloor>systemAngle (showcaseSystemRef c) / (2 * pi)\<rfloor>"
    unfolding ang using trackLaps_small [OF d0 d1] by simp
  show "prevSystemAngle (useFrame c f) = systemAngle (showcaseSystemRef (useFrame c f))"
    unfolding u by (simp add: activeStep_angle)
qed

lemma prevSystemAngle_useFrame:
  assumes "prevSystemAngle c = systemAngle (showcaseSystemRef c)"
  shows "prevSystemAngle (useFrame c f) = systemAngle (showcaseSystemRef (useFrame c f))"
  using assms
  by (cases "phase (showcaseSystemRef c)")
     (simp_all add: useFrame_def Let_def cooldownStep_def activeStep_angle)

lemma prevSystemAngle_reachable:
  "prevSystemAngle (run (initialPhotoCloud m) fs) =
     systemAngle (showcaseSystemRef (run (initialPhotoCloud m) fs))"
proof -
  have "prevSystemAngle c = systemAngle (showcaseSystemRef c) \<Longrightarrow>
        prevSystemAngle (run c fs) = systemAngle (showcaseSystemRef (run c fs))" for c
    unfolding run_def
    by (induction fs arbitrary: c) (simp_all add: prevSystemAngle_useFrame)
  then show ?thesis by (simp add: initialPhotoCloud_def)
qed

lemma constant_speed:
  assumes "staysActive c fs" and "zoneFree c fs"
  shows "systemAngle (showcaseSystemRef (run c fs)) =
           systemAngle (showcaseSystemRef c) + 2.5 * elapsed fs"
  using assms
proof (induction fs arbitrary: c)
  case Nil
  then show ?case by (simp add: run_def elapsed_def)
next
  case (Cons f fs)
  from Cons.prems(1) have act: "mode (props f) = ASSEMBLED" "length (photos (props f)) \<ge> 2"
      "phase (showcaseSystemRef c) = ACTIVE"
    and rest: "staysActive (useFrame c f) fs"
    by simp_all
  from Cons.prems(2) have z: "\<not> inPresentationZone (showcaseSystemRef c) (elapsedTime f)"
    and zrest: "zoneFree (useFrame c f) fs"
    by simp_all
  have u: "useFrame c f = activeStep (elapsedTime f) (delta f) (physics c (mode (props f)) (delta f))"
    using act by (rule useFrame_active)
  have one: "systemAngle (showcaseSystemRef (useFrame c f)) =
      systemAngle (showcaseSystemRef c) + 2.5 * delta f"
    unfolding u activeStep_angle using z by simp
  have r: "run c (f # fs) = run (useFrame c f) fs" by (simp add: run_def)
  show ?case
    unfolding r using Cons.IH [OF rest zrest] one
    by (simp add: elapsed_def algebra_simps)
qed

text \<open>
  C2 (amended). Over a run of frames that stays in the ACTIVE branch, with every delta
  non-negative and 2.5 * delta below 2\<pi>, and starting with prevSystemAngle equal to
  systemAngle (as it is in every state reached from the initial refs), lapCounter grows by
  exactly the number of multiples of 2\<pi> that systemAngle has passed,
  \<open>\<lfloor>final / 2\<pi>\<rfloor> - \<lfloor>initial / 2\<pi>\<rfloor>\<close>. Consequently two such runs from the same state
  that cover the same total time end with the same lapCounter, whatever their step sizes,
  provided no frame of either run is sampled inside the presentation zone.
\<close>

theorem lap_counter_counts_crossings:
  assumes "prevSystemAngle c = systemAngle (showcaseSystemRef c)"
    and "staysActive c fs" and "staysActive c gs"
  shows "int (lapCounter (showcaseSystemRef (run c fs))) =
           int (lapCounter (showcaseSystemRef c))
           + \<lfloor>systemAngle (showcaseSystemRef (run c fs)) / (2 * pi)\<rfloor>
           - \<lfloor>systemAngle (showcaseSystemRef c) / (2 * pi)\<rfloor>
       \<and> (zoneFree c fs \<and> zoneFree c gs \<and> elapsed fs = elapsed gs \<longrightarrow>
            lapCounter (showcaseSystemRef (run c fs)) = lapCounter (showcaseSystemRef (run c gs)))"
proof -
  have count: "int (lapCounter (showcaseSystemRef (run c hs))) =
           int (lapCounter (showcaseSystemRef c))
           + \<lfloor>systemAngle (showcaseSystemRef (run c hs)) / (2 * pi)\<rfloor>
           - \<lfloor>systemAngle (showcaseSystemRef c) / (2 * pi)\<rfloor>"
    if "staysActive c hs" for hs
    using assms(1) that
  proof (induction hs arbitrary: c)
    case Nil
    then show ?case by (simp add: run_def)
  next
    case (Cons f fs)
    from Cons.prems(2) have act: "mode (props f) = ASSEMBLED" "length (photos (props f)) \<ge> 2"
        "phase (showcaseSystemRef c) = ACTIVE"
      and dt: "0 \<le> delta f" "2.5 * delta f < 2 * pi"
      and rest: "staysActive (useFrame c f) fs"
      by simp_all
    note step = active_step_counts [OF Cons.prems(1) act dt]
    have r: "run c (f # fs) = run (useFrame c f) fs" by (simp add: run_def)
    show ?case
      unfolding r using Cons.IH [OF step(2) rest] step(1) by simp
  qed
  have same: "lapCounter (showcaseSystemRef (run c fs)) = lapCounter (showcaseSystemRef (run c gs))"
    if z: "zoneFree c fs" "zoneFree c gs" and e: "elapsed fs = elapsed gs"
  proof -
    have "systemAngle (showcaseSystemRef (run c fs)) = systemAngle (showcaseSystemRef (run c gs))"
      using constant_speed [OF assms(2) z(1)] constant_speed [OF assms(3) z(2)] e by simp
    then have "int (lapCounter (showcaseSystemRef (run c fs)))
        = int (lapCounter (showcaseSystemRef (run c gs)))"
      using count [OF assms(2)] count [OF assms(3)] by simp
    then show ?thesis by simp
  qed
  show ?thesis using count [OF assms(2)] same by blast
qed

lemma no_zone: "lapCounter sys < 2 \<Longrightarrow> \<not> inPresentationZone sys t"
  by (auto simp add: inPresentationZone_def list_ex_iff)

lemma no_mark: "lc < 2 \<Longrightarrow> markPresented t lc ang obj = obj"
  by (induction obj) (auto simp add: markPresented_def)

lemma cleanup_nil: "cleanup t [] sys = sys"
  by (simp add: cleanup_def)

lemma orbiting_fields [simp]:
  "systemAngle (showcaseSystemRef (orbiting t0 ang lc)) = ang"
  "prevSystemAngle (orbiting t0 ang lc) = ang"
  "lapCounter (showcaseSystemRef (orbiting t0 ang lc)) = lc"
  "phase (showcaseSystemRef (orbiting t0 ang lc)) = ACTIVE"
  "spinRef (orbiting t0 ang lc) = 0"
  by (simp_all add: orbiting_def)

lemma orbit_frame:
  assumes "lc < 2" and "trackLaps (ang + 2.5 * dt) ang lc < 2"
  shows "useFrame (orbiting t0 ang lc) (frame t dt) =
           orbiting t0 (ang + 2.5 * dt) (trackLaps (ang + 2.5 * dt) ang lc)"
proof -
  have p: "physics (orbiting t0 ang lc) ASSEMBLED dt = orbiting t0 ang lc"
    by (simp add: physics_def Let_def orbiting_def)
  have z: "\<not> inPresentationZone (showcaseSystemRef (orbiting t0 ang lc)) t"
    using assms(1) by (intro no_zone) (simp add: orbiting_def)
  have u: "useFrame (orbiting t0 ang lc) (frame t dt) = activeStep t dt (orbiting t0 ang lc)"
    using useFrame_active [of "frame t dt" "orbiting t0 ang lc"] p
    by (simp add: frame_def gallery_def)
  have s: "systemAngle (showcaseSystemRef (orbiting t0 ang lc)) = ang"
     "prevSystemAngle (orbiting t0 ang lc) = ang"
     "lapCounter (showcaseSystemRef (orbiting t0 ang lc)) = lc"
    by (simp_all add: orbiting_def)
  have r: "returning t 0 False (ang + 2.5 * dt)
      (active (showcaseSystemRef (orbiting t0 ang lc))) = []"
    by (simp add: returning_def orbiting_def keys_def partA_def partB_def)
  show ?thesis
    unfolding u activeStep_def Let_def s
    using z assms(2) r
    by (simp add: no_mark cleanup_nil orbiting_def)
qed

lemma pi_ge_3: "3 \<le> pi"
proof -
  have "sin (pi / 6) \<le> pi / 6" by (rule sin_x_le_x) simp
  then show ?thesis by (simp add: sin_30)
qed

lemma floor_17: "\<lfloor>17 / (2 * pi)\<rfloor> = 2"
proof -
  have "2 \<le> 17 / (2 * pi)" using pi_less_4 by (simp add: le_divide_eq)
  moreover have "17 / (2 * pi) < 3" using pi_ge_3 by (simp add: divide_less_eq)
  ultimately show ?thesis by (simp add: floor_eq_iff)
qed

lemma floor_half: "\<lfloor>17 / (4 * pi)\<rfloor> = 1"
proof -
  have "1 \<le> 17 / (4 * pi)" using pi_less_4 by (simp add: le_divide_eq)
  moreover have "17 / (4 * pi) < 2" using pi_ge_3 by (simp add: divide_less_eq)
  ultimately show ?thesis by (simp add: floor_eq_iff)
qed

lemma laps_big: "trackLaps 17 0 0 = 1"
  using floor_17 by (simp add: trackLaps_def mult.commute)

lemma laps_half1: "trackLaps (17 / 2) 0 0 = 1"
  using floor_half by (simp add: trackLaps_def mult.commute)

lemma laps_half2: "trackLaps 17 (17 / 2) 1 = 2"
  using floor_half floor_17 by (simp add: trackLaps_def mult.commute)

lemma big_step:
  "run (initialPhotoCloud ASSEMBLED) [frame 7 0.016, frame 13.8 6.8] = orbiting 7 17 1"
proof -
  have sf: "useFrame (initialPhotoCloud ASSEMBLED) (frame 7 0.016) = orbiting 7 0 0"
    by (rule start_frame) simp
  have "useFrame (orbiting 7 0 0) (frame 13.8 6.8) = orbiting 7 17 1"
    using orbit_frame [of 0 0 "6.8" 7 "13.8"] by (simp add: laps_big)
  then show ?thesis by (simp only: run_def foldl.simps sf)
qed

lemma half_steps:
  "lapCounter (showcaseSystemRef
     (run (initialPhotoCloud ASSEMBLED) [frame 7 0.016, frame 10.4 3.4, frame 13.8 3.4])) = 2"
  "systemAngle (showcaseSystemRef
     (run (initialPhotoCloud ASSEMBLED) [frame 7 0.016, frame 10.4 3.4, frame 13.8 3.4])) = 17"
proof -
  have one: "useFrame (orbiting 7 0 0) (frame 10.4 3.4) = orbiting 7 (17 / 2) 1"
    using orbit_frame [of 0 0 "3.4" 7 "10.4"] by (simp add: laps_half1)
  have p: "physics (orbiting 7 (17 / 2) 1) ASSEMBLED 3.4 = orbiting 7 (17 / 2) 1"
    by (simp add: physics_def Let_def orbiting_def)
  have u: "useFrame (orbiting 7 (17 / 2) 1) (frame 13.8 3.4)
      = activeStep 13.8 3.4 (orbiting 7 (17 / 2) 1)"
    using useFrame_active [of "frame 13.8 3.4" "orbiting 7 (17 / 2) 1"] p
    by (simp add: frame_def gallery_def)
  have z: "\<not> inPresentationZone (showcaseSystemRef (orbiting 7 (17 / 2) 1)) 13.8"
    by (intro no_zone) (simp add: orbiting_def)
  have s: "systemAngle (showcaseSystemRef (orbiting 7 (17 / 2) 1)) = 17 / 2"
     "prevSystemAngle (orbiting 7 (17 / 2) 1) = 17 / 2"
     "lapCounter (showcaseSystemRef (orbiting 7 (17 / 2) 1)) = 1"
    by (simp_all add: orbiting_def)
  have a: "systemAngle (showcaseSystemRef (activeStep 13.8 3.4 (orbiting 7 (17 / 2) 1))) = 17"
    unfolding activeStep_angle using z by simp
  have l: "lapCounter (showcaseSystemRef (activeStep 13.8 3.4 (orbiting 7 (17 / 2) 1))) = 2"
    unfolding activeStep_lapCounter a s by (rule laps_half2)
  have sf: "useFrame (initialPhotoCloud ASSEMBLED) (frame 7 0.016) = orbiting 7 0 0"
    by (rule start_frame) simp
  have r: "run (initialPhotoCloud ASSEMBLED) [frame 7 0.016, frame 10.4 3.4, frame 13.8 3.4]
    = activeStep 13.8 3.4 (orbiting 7 (17 / 2) 1)"
    by (simp only: run_def foldl.simps sf one u)
  show "lapCounter (showcaseSystemRef
     (run (initialPhotoCloud ASSEMBLED) [frame 7 0.016, frame 10.4 3.4, frame 13.8 3.4])) = 2"
    unfolding r by (rule l)
  show "systemAngle (showcaseSystemRef
     (run (initialPhotoCloud ASSEMBLED) [frame 7 0.016, frame 10.4 3.4, frame 13.8 3.4])) = 17"
    unfolding r by (rule a)
qed

lemma floor_5: "\<lfloor>5 / (2 * pi)\<rfloor> = 0"
proof -
  have "5 / (2 * pi) < 1" using pi_ge_3 by (simp add: divide_less_eq)
  moreover have "0 \<le> 5 / (2 * pi)" by simp
  ultimately show ?thesis by (simp add: floor_eq_iff)
qed

lemma floor_10: "\<lfloor>10 / (2 * pi)\<rfloor> = 1"
proof -
  have "10 / (2 * pi) < 2" using pi_ge_3 by (simp add: divide_less_eq)
  moreover have "1 \<le> 10 / (2 * pi)" using pi_less_4 by (simp add: le_divide_eq)
  ultimately show ?thesis by (simp add: floor_eq_iff)
qed

lemma laps_5: "trackLaps 5 0 0 = 0"
  using floor_5 by (simp add: trackLaps_def mult.commute)

subsection \<open>A participant returning alone\<close>

lemma js_rem_pi:
  assumes "0 \<le> a"
  shows "js_rem (a * pi) (pi * 2) = (a - 2 * of_int \<lfloor>a / 2\<rfloor>) * pi"
proof -
  have "a * pi / (pi * 2) = a / 2" by simp
  then show ?thesis
    using assms by (simp add: js_rem_def algebra_simps)
qed

lemma js_rem_values:
  "js_rem (9 * pi / 2) (pi * 2) = pi / 2"
  "js_rem (5 * pi / 2) (pi * 2) = pi / 2"
  "js_rem (11 * pi / 2) (pi * 2) = 3 * pi / 2"
  "js_rem (7 * pi / 2) (pi * 2) = 3 * pi / 2"
  "js_rem (pi / 2) (pi * 2) = pi / 2"
  using js_rem_pi [of "9 / 2"] js_rem_pi [of "5 / 2"] js_rem_pi [of "11 / 2"]
    js_rem_pi [of "7 / 2"] js_rem_pi [of "1 / 2"]
  by simp_all

lemma pd_A: "presentationDist (9 * pi / 2) 0 = 0"
proof -
  have "pi / 2 + pi * 2 = 5 * pi / 2" by simp
  then show ?thesis
    by (simp add: presentationDist_def Let_def js_rem_values)
qed

lemma pd_B: "presentationDist (9 * pi / 2) pi = pi"
proof -
  have "9 * pi / 2 + pi = 11 * pi / 2" "3 * pi / 2 + pi * 2 = 7 * pi / 2" by simp_all
  then show ?thesis
    by (simp add: presentationDist_def Let_def js_rem_values)
qed

lemma sd_A: "slotDiff (5 * pi) 0 (9 * pi / 2) (partA t0 pr) = 0"
proof -
  have "pi / 2 + 2 * pi = 5 * pi / 2" "2 * pi = pi * 2" by simp_all
  then show ?thesis
    by (simp add: slotDiff_def Let_def partA_def js_rem_values)
qed

lemma laps_return: "trackLaps (9 * pi / 2) (5 * pi / 2) (Suc 0) = 2"
proof -
  have "9 * pi / 2 / (pi * 2) = 9 / 4" "5 * pi / 2 / (pi * 2) = 5 / 4" by simp_all
  then show ?thesis by (simp add: trackLaps_def)
qed

lemma laps_first: "trackLaps (5 * pi / 2) 0 0 = 1"
proof -
  have "5 * pi / 2 / (pi * 2) = 5 / 4" by simp
  then show ?thesis by (simp add: trackLaps_def)
qed

lemma orbiting_parts:
  "active (showcaseSystemRef (orbiting t0 ang lc)) = [(''A'', partA t0 False), (''B'', partB t0 False)]"
  by (simp add: orbiting_def partA_def partB_def)

lemma orbiting_sys:
  "showcaseSystemRef (orbiting t0 ang lc) =
      \<lparr>active = [(''A'', partA t0 False), (''B'', partB t0 False)],
       systemAngle = ang, phase = ACTIVE, cooldownUntil = 6, lapCounter = lc\<rparr>"
  by (simp add: orbiting_def partA_def partB_def)

lemma mark_return:
  "markPresented (5 * pi) 2 (9 * pi / 2)
     [(''A'', partA (16 * pi / 5) False), (''B'', partB (16 * pi / 5) False)]
   = [(''A'', partA (16 * pi / 5) True), (''B'', partB (16 * pi / 5) False)]"
proof -
  have "pi \<ge> 2" by (rule pi_ge_two)
  then have "\<not> pi < 1 / 10" "16 * pi / 5 \<le> 5 * pi" by simp_all
  then show ?thesis
    by (simp add: markPresented_def partA_def partB_def pd_A pd_B)
qed

lemma returning_A:
  "returning (5 * pi) 0 False (9 * pi / 2)
     [(''A'', partA (16 * pi / 5) True), (''B'', partB (16 * pi / 5) False)] = [''A'']"
proof -
  have "hasPresented (partA (16 * pi / 5) True)" "\<not> hasPresented (partB (16 * pi / 5) False)"
    by (simp_all add: partA_def partB_def)
  then show ?thesis
    by (simp add: returning_def keys_def sd_A)
qed

lemma return_frame:
  "showcaseSystemRef (useFrame (orbiting (16 * pi / 5) (5 * pi / 2) 1) (frame (5 * pi) (4 * pi / 5)))
   = \<lparr>active = [(''B'', partB (16 * pi / 5) False)], systemAngle = 9 * pi / 2, phase = ACTIVE,
      cooldownUntil = 6, lapCounter = 2\<rparr>"
proof -
  let ?c = "orbiting (16 * pi / 5) (5 * pi / 2) 1"
  have p: "physics ?c ASSEMBLED (4 * pi / 5) = ?c"
    by (simp add: physics_def Let_def orbiting_def)
  have u: "useFrame ?c (frame (5 * pi) (4 * pi / 5)) = activeStep (5 * pi) (4 * pi / 5) ?c"
    using useFrame_active [of "frame (5 * pi) (4 * pi / 5)" ?c] p
    by (simp add: frame_def gallery_def)
  have z: "\<not> inPresentationZone (showcaseSystemRef ?c) (5 * pi)"
    by (intro no_zone) simp
  have t: "5 * pi / 2 + 2.5 * (4 * pi / 5) = 9 * pi / 2" by simp
  have s: "showcaseSystemRef ?c =
      \<lparr>active = [(''A'', partA (16 * pi / 5) False), (''B'', partB (16 * pi / 5) False)],
       systemAngle = 5 * pi / 2, phase = ACTIVE, cooldownUntil = 6, lapCounter = Suc 0\<rparr>"
    by (simp add: orbiting_def partA_def partB_def)
  have c: "cleanup (5 * pi) [''A'']
      \<lparr>active = [(''A'', partA (16 * pi / 5) True), (''B'', partB (16 * pi / 5) False)],
       systemAngle = 9 * pi / 2, phase = ACTIVE, cooldownUntil = 6, lapCounter = 2\<rparr>
    = \<lparr>active = [(''B'', partB (16 * pi / 5) False)], systemAngle = 9 * pi / 2, phase = ACTIVE,
      cooldownUntil = 6, lapCounter = 2\<rparr>"
    by (simp add: cleanup_def keys_def)
  show ?thesis
    unfolding u activeStep_def Let_def
    using z by (simp add: t laps_return orbiting_parts mark_return returning_A) (simp add: orbiting_sys c)
qed

subsection \<open>Cardinality of the active participants, and the start of a showcase\<close>

text \<open>
  C1 (amended). After any sequence of frames from the initial refs, the dictionary of
  active participants has one entry per key; it is empty while the phase is COOLDOWN and
  holds one or two participants while the phase is ACTIVE.
\<close>

theorem active_cardinality_invariant:
  "distinct (keys (active (showcaseSystemRef (run (initialPhotoCloud m) fs))))
   \<and> (phase (showcaseSystemRef (run (initialPhotoCloud m) fs)) = COOLDOWN \<longrightarrow>
        length (keys (active (showcaseSystemRef (run (initialPhotoCloud m) fs)))) = 0)
   \<and> (phase (showcaseSystemRef (run (initialPhotoCloud m) fs)) = ACTIVE \<longrightarrow>
        length (keys (active (showcaseSystemRef (run (initialPhotoCloud m) fs)))) = 1
        \<or> length (keys (active (showcaseSystemRef (run (initialPhotoCloud m) fs)))) = 2)"
  using inv_run [OF inv_initial, of m fs] unfolding showcaseInv_def .

theorem active_cardinality_invariant_witness:
  "phase (showcaseSystemRef (run (initialPhotoCloud ASSEMBLED) [])) = COOLDOWN
   \<and> length (keys (active (showcaseSystemRef (run (initialPhotoCloud ASSEMBLED) [])))) = 0
   \<and> phase (showcaseSystemRef (run (initialPhotoCloud ASSEMBLED) [frame 7 0.016])) = ACTIVE
   \<and> (length (keys (active (showcaseSystemRef
          (run (initialPhotoCloud ASSEMBLED) [frame 7 0.016])))) = 1
      \<or> length (keys (active (showcaseSystemRef
          (run (initialPhotoCloud ASSEMBLED) [frame 7 0.016])))) = 2)"
proof -
  have sf: "useFrame (initialPhotoCloud ASSEMBLED) (frame 7 0.016) = orbiting 7 0 0"
    by (rule start_frame) simp
  have cold: "phase (showcaseSystemRef (run (initialPhotoCloud ASSEMBLED) [])) = COOLDOWN"
    by (simp add: run_def initialPhotoCloud_def)
  have hot: "phase (showcaseSystemRef (run (initialPhotoCloud ASSEMBLED) [frame 7 0.016])) = ACTIVE"
    by (simp only: run_def foldl.simps sf orbiting_fields)
  show ?thesis
    using active_cardinality_invariant [of ASSEMBLED "[]"]
      active_cardinality_invariant [of ASSEMBLED "[frame 7 0.016]"] cold hot
    by simp
qed

text \<open>
  C1 as stated fails: participants return to the tree one at a time. Start at time
  16\<pi>/5 with systemAngle 0; a frame with delta \<pi> brings the angle to 5\<pi>/2 (lap 1); a frame
  with delta 4\<pi>/5 at time 5\<pi> brings it to 9\<pi>/2 (lap 2), where participant A is exactly in
  front of the camera and exactly aligned with its slot, so A is marked and removed while
  B stays: the phase is still ACTIVE with one participant.
\<close>

theorem one_participant_while_active_counterexample:
  "phase (showcaseSystemRef (run (initialPhotoCloud ASSEMBLED)
      [frame (16 * pi / 5) 0.016, frame (21 * pi / 5) pi, frame (5 * pi) (4 * pi / 5)])) = ACTIVE
   \<and> length (keys (active (showcaseSystemRef (run (initialPhotoCloud ASSEMBLED)
      [frame (16 * pi / 5) 0.016, frame (21 * pi / 5) pi, frame (5 * pi) (4 * pi / 5)])))) = 1"
proof -
  have "2 \<le> pi" by (rule pi_ge_two)
  then have "6 < 16 * pi / 5" by simp
  then have sf: "useFrame (initialPhotoCloud ASSEMBLED) (frame (16 * pi / 5) 0.016)
      = orbiting (16 * pi / 5) 0 0"
    by (rule start_frame)
  have one: "useFrame (orbiting (16 * pi / 5) 0 0) (frame (21 * pi / 5) pi)
      = orbiting (16 * pi / 5) (5 * pi / 2) 1"
    using orbit_frame [of 0 0 pi "16 * pi / 5" "21 * pi / 5"] by (simp add: laps_first)
  show ?thesis
    by (simp only: run_def foldl.simps sf one return_frame) (simp add: keys_def)
qed

lemma random_index:
  assumes "0 \<le> r" and "r < 1" and "0 < n"
  shows "nat \<lfloor>r * real n\<rfloor> < n"
proof -
  have "r * real n < real n" using assms by simp
  then have "\<lfloor>r * real n\<rfloor> < int n" by (simp add: floor_less_iff)
  moreover have "0 \<le> \<lfloor>r * real n\<rfloor>" using assms by simp
  ultimately show ?thesis by linarith
qed

lemma second_index:
  assumes "i < n" and "2 \<le> (n::nat)"
  shows "(i + n div 2) mod n \<noteq> i"
proof
  assume e: "(i + n div 2) mod n = i"
  have k: "0 < n div 2" "n div 2 < n" using assms(2) by auto
  show False
  proof (cases "i + n div 2 < n")
    case True
    then show ?thesis using e k by simp
  next
    case False
    then have "(i + n div 2) mod n = i + n div 2 - n"
      using assms(1) k by (simp add: mod_if)
    then show ?thesis using e k False by linarith
  qed
qed

lemma distinct_ids:
  "distinct (map g xs) \<Longrightarrow> i < length xs \<Longrightarrow> j < length xs \<Longrightarrow> i \<noteq> j
     \<Longrightarrow> g (xs ! i) \<noteq> g (xs ! j)"
  by (metis length_map nth_eq_iff_index_eq nth_map)

text \<open>
  C7. A frame in mode ASSEMBLED with the phase COOLDOWN, the time past cooldownUntil and
  at least two candidates other than the focused photo starts a showcase: the phase becomes
  ACTIVE and the dictionary holds exactly two participants, for two photos of the pool with
  different ids, neither of them the focused one; the first has offset 0 and launches now,
  the second has offset \<pi> and launches 0.7 later, and each records atan2 of the x and z
  coordinates of its photo's tree position. The ids of the pool are distinct and the first
  random draw lies in \<open>[0, 1)\<close>.
\<close>

theorem showcase_start_creates_two:
  assumes "phase (showcaseSystemRef c) = COOLDOWN"
    and "mode (props f) = ASSEMBLED"
    and "cooldownUntil (showcaseSystemRef c) < elapsedTime f"
    and "2 \<le> length (filter (\<lambda>p. Some (photo_id p) \<noteq> focusId (props f)) (photos (props f)))"
    and "distinct (map photo_id (photos (props f)))"
    and "0 \<le> random1 f" and "random1 f < 1"
  shows "\<exists>p1 p2.
      p1 \<in> set (photos (props f)) \<and> p2 \<in> set (photos (props f))
      \<and> Some (photo_id p1) \<noteq> focusId (props f) \<and> Some (photo_id p2) \<noteq> focusId (props f)
      \<and> photo_id p1 \<noteq> photo_id p2
      \<and> phase (showcaseSystemRef (useFrame c f)) = ACTIVE
      \<and> active (showcaseSystemRef (useFrame c f)) =
          [(photo_id p1,
            \<lparr>part_id = photo_id p1, offsetAngle = 0, launchTime = elapsedTime f,
             hasPresented = False,
             originalSlotAngle = atan2 (fst (treePosition p1)) (snd (snd (treePosition p1)))\<rparr>),
           (photo_id p2,
            \<lparr>part_id = photo_id p2, offsetAngle = pi, launchTime = elapsedTime f + 0.7,
             hasPresented = False,
             originalSlotAngle = atan2 (fst (treePosition p2)) (snd (snd (treePosition p2)))\<rparr>)]"
proof -
  define a where "a = props f"
  define cands where "cands = filter (\<lambda>p. Some (photo_id p) \<noteq> focusId a) (photos a)"
  define n where "n = length cands"
  define i1 where "i1 = nat \<lfloor>random1 f * real n\<rfloor>"
  define j where "j = (i1 + n div 2) mod n"
  define i2 where "i2 = (if i1 = j then (i1 + 1) mod n else j)"
  define c1 where "c1 = physics c (mode a) (delta f)"
  have n2: "2 \<le> n" using assms(4) by (simp add: n_def cands_def a_def)
  then have pos: "0 < n" by linarith
  have "n \<le> length (photos a)" unfolding n_def cands_def by (rule length_filter_le)
  with n2 have big: "2 \<le> length (photos a)" by linarith
  have i1: "i1 < n" unfolding i1_def using assms(6,7) pos by (rule random_index)
  have jne: "j \<noteq> i1" unfolding j_def using i1 n2 by (rule second_index)
  then have i2eq: "i2 = j" by (simp add: i2_def)
  have i2: "i2 < n" unfolding i2eq j_def using pos by (rule mod_less_divisor)
  have ne: "i1 \<noteq> i2" using jne unfolding i2eq by simp
  have dc: "distinct (map photo_id cands)"
    unfolding cands_def using assms(5) by (simp add: a_def distinct_map_filter)
  have ids: "photo_id (cands ! i1) \<noteq> photo_id (cands ! i2)"
    using dc i1 i2 ne unfolding n_def by (rule distinct_ids)
  have "cands ! i1 \<in> set cands" "cands ! i2 \<in> set cands"
    using i1 i2 unfolding n_def by simp_all
  then have m: "cands ! i1 \<in> set (photos a)" "cands ! i2 \<in> set (photos a)"
    "Some (photo_id (cands ! i1)) \<noteq> focusId a" "Some (photo_id (cands ! i2)) \<noteq> focusId a"
    unfolding cands_def by simp_all
  have u: "useFrame c f = cooldownStep a (elapsedTime f) (random1 f) (random2 f) c1"
    using assms(1,2) big by (simp add: useFrame_def Let_def a_def c1_def)
  have late: "cooldownUntil (showcaseSystemRef c1) < elapsedTime f"
    "showcaseSystemRef c1 = showcaseSystemRef c"
    using assms(3) by (simp_all add: c1_def)
  have sys: "showcaseSystemRef (useFrame c f) =
      (showcaseSystemRef c)\<lparr>systemAngle := random2 f * pi * 2, phase := ACTIVE, lapCounter := 0,
        active := object2
          (photo_id (cands ! i1))
          \<lparr>part_id = photo_id (cands ! i1), offsetAngle = 0, launchTime = elapsedTime f,
           hasPresented = False,
           originalSlotAngle = atan2 (fst (treePosition (cands ! i1)))
                                     (snd (snd (treePosition (cands ! i1))))\<rparr>
          (photo_id (cands ! i2))
          \<lparr>part_id = photo_id (cands ! i2), offsetAngle = pi,
           launchTime = elapsedTime f + 0.7, hasPresented = False,
           originalSlotAngle = atan2 (fst (treePosition (cands ! i2)))
                                     (snd (snd (treePosition (cands ! i2))))\<rparr>\<rparr>"
    unfolding u cooldownStep_def Let_def
    using late n2 jne
    by (simp add: cands_def [symmetric] n_def [symmetric] i1_def [symmetric]
        j_def [symmetric] i2eq)
  show ?thesis
    apply (rule exI [of _ "cands ! i1"], rule exI [of _ "cands ! i2"])
    using m ids unfolding sys by (simp add: object2_def a_def)
qed

subsection \<open>Leaving the assembled mode\<close>

theorem showcase_start_creates_two_witness:
  "phase (showcaseSystemRef (initialPhotoCloud ASSEMBLED)) = COOLDOWN
   \<and> cooldownUntil (showcaseSystemRef (initialPhotoCloud ASSEMBLED)) < elapsedTime (frame 7 0.016)
   \<and> distinct (map photo_id (photos (props (frame 7 0.016))))
   \<and> phase (showcaseSystemRef (useFrame (initialPhotoCloud ASSEMBLED) (frame 7 0.016))) = ACTIVE
   \<and> distinct (keys (active (showcaseSystemRef
         (useFrame (initialPhotoCloud ASSEMBLED) (frame 7 0.016)))))
   \<and> map (\<lambda>(key, p). (offsetAngle p, launchTime p))
         (active (showcaseSystemRef (useFrame (initialPhotoCloud ASSEMBLED) (frame 7 0.016))))
       = [(0, 7), (pi, 7 + 0.7)]"
proof -
  let ?c = "initialPhotoCloud ASSEMBLED"
  let ?f = "frame 7 0.016"
  have h1: "phase (showcaseSystemRef ?c) = COOLDOWN" by (simp add: initialPhotoCloud_def)
  have h2: "mode (props ?f) = ASSEMBLED" by (simp add: frame_def gallery_def)
  have h3: "cooldownUntil (showcaseSystemRef ?c) < elapsedTime ?f"
    by (simp add: initialPhotoCloud_def frame_def)
  have h4: "2 \<le> length (filter (\<lambda>p. Some (photo_id p) \<noteq> focusId (props ?f)) (photos (props ?f)))"
    by (simp add: frame_def gallery_def)
  have h5: "distinct (map photo_id (photos (props ?f)))"
    by (simp add: frame_def gallery_def slotPhoto_def)
  have h6: "0 \<le> random1 ?f" "random1 ?f < 1" by (simp_all add: frame_def)
  have t: "elapsedTime ?f = 7" by (simp add: frame_def)
  note start = showcase_start_creates_two [OF h1 h2 h3 h4 h5 h6]
  from start obtain p1 where "\<exists>p2.
      p1 \<in> set (photos (props ?f)) \<and> p2 \<in> set (photos (props ?f))
      \<and> Some (photo_id p1) \<noteq> focusId (props ?f) \<and> Some (photo_id p2) \<noteq> focusId (props ?f)
      \<and> photo_id p1 \<noteq> photo_id p2
      \<and> phase (showcaseSystemRef (useFrame ?c ?f)) = ACTIVE
      \<and> active (showcaseSystemRef (useFrame ?c ?f)) =
          [(photo_id p1,
            \<lparr>part_id = photo_id p1, offsetAngle = 0, launchTime = elapsedTime ?f,
             hasPresented = False,
             originalSlotAngle = atan2 (fst (treePosition p1)) (snd (snd (treePosition p1)))\<rparr>),
           (photo_id p2,
            \<lparr>part_id = photo_id p2, offsetAngle = pi, launchTime = elapsedTime ?f + 0.7,
             hasPresented = False,
             originalSlotAngle = atan2 (fst (treePosition p2)) (snd (snd (treePosition p2)))\<rparr>)]" ..
  then obtain p2 where all: "
      p1 \<in> set (photos (props ?f)) \<and> p2 \<in> set (photos (props ?f))
      \<and> Some (photo_id p1) \<noteq> focusId (props ?f) \<and> Some (photo_id p2) \<noteq> focusId (props ?f)
      \<and> photo_id p1 \<noteq> photo_id p2
      \<and> phase (showcaseSystemRef (useFrame ?c ?f)) = ACTIVE
      \<and> active (showcaseSystemRef (useFrame ?c ?f)) =
          [(photo_id p1,
            \<lparr>part_id = photo_id p1, offsetAngle = 0, launchTime = elapsedTime ?f,
             hasPresented = False,
             originalSlotAngle = atan2 (fst (treePosition p1)) (snd (snd (treePosition p1)))\<rparr>),
           (photo_id p2,
            \<lparr>part_id = photo_id p2, offsetAngle = pi, launchTime = elapsedTime ?f + 0.7,
             hasPresented = False,
             originalSlotAngle = atan2 (fst (treePosition p2)) (snd (snd (treePosition p2)))\<rparr>)]" ..
  then have ne: "photo_id p1 \<noteq> photo_id p2"
    and ph: "phase (showcaseSystemRef (useFrame ?c ?f)) = ACTIVE"
    and act: "active (showcaseSystemRef (useFrame ?c ?f)) =
          [(photo_id p1,
            \<lparr>part_id = photo_id p1, offsetAngle = 0, launchTime = elapsedTime ?f,
             hasPresented = False,
             originalSlotAngle = atan2 (fst (treePosition p1)) (snd (snd (treePosition p1)))\<rparr>),
           (photo_id p2,
            \<lparr>part_id = photo_id p2, offsetAngle = pi, launchTime = elapsedTime ?f + 0.7,
             hasPresented = False,
             originalSlotAngle = atan2 (fst (treePosition p2)) (snd (snd (treePosition p2)))\<rparr>)]"
    by simp_all
  have k: "distinct (keys (active (showcaseSystemRef (useFrame ?c ?f))))"
    unfolding act using ne by (simp add: keys_def)
  have l: "map (\<lambda>(key, p). (offsetAngle p, launchTime p))
         (active (showcaseSystemRef (useFrame ?c ?f))) = [(0, 7), (pi, 7 + 0.7)]"
    unfolding act t by simp
  from h1 h3 h5 ph k l show ?thesis by (intro conjI)
qed

lemma reset_holds:
  assumes "active (showcaseSystemRef c) = []" and "phase (showcaseSystemRef c) = COOLDOWN"
    and "t0 + 6 \<le> cooldownUntil (showcaseSystemRef c)"
    and "t0 \<le> elapsedTime g" and "elapsedTime g \<le> t0 + 6"
  shows "active (showcaseSystemRef (useFrame c g)) = []
       \<and> phase (showcaseSystemRef (useFrame c g)) = COOLDOWN
       \<and> t0 + 6 \<le> cooldownUntil (showcaseSystemRef (useFrame c g))"
  using assms by (simp add: useFrame_def Let_def cooldownStep_def)

lemma reset_holds_run:
  assumes "active (showcaseSystemRef c) = []" and "phase (showcaseSystemRef c) = COOLDOWN"
    and "t0 + 6 \<le> cooldownUntil (showcaseSystemRef c)"
    and "\<forall>g \<in> set gs. t0 \<le> elapsedTime g \<and> elapsedTime g \<le> t0 + 6"
  shows "active (showcaseSystemRef (run c gs)) = []
       \<and> phase (showcaseSystemRef (run c gs)) = COOLDOWN"
  using assms
proof (induction gs arbitrary: c)
  case Nil
  then show ?case by (simp add: run_def)
next
  case (Cons g gs)
  from Cons.prems(4) have g: "t0 \<le> elapsedTime g" "elapsedTime g \<le> t0 + 6"
    and rest: "\<forall>g \<in> set gs. t0 \<le> elapsedTime g \<and> elapsedTime g \<le> t0 + 6"
    by simp_all
  from reset_holds [OF Cons.prems(1-3) g]
  have "active (showcaseSystemRef (run (useFrame c g) gs)) = []
       \<and> phase (showcaseSystemRef (run (useFrame c g) gs)) = COOLDOWN"
    using rest by (intro Cons.IH) simp_all
  then show ?case by (simp add: run_def)
qed

text \<open>
  C8. A frame whose mode is not ASSEMBLED, or whose pool has fewer than two photos, clears
  the active participants, sets the phase to COOLDOWN and lapCounter to 0, and sets
  cooldownUntil to the frame's time plus 6. Over any later frames whose times lie within
  those 6 time units, whatever their mode, no showcase starts.
\<close>

theorem leaving_assembled_resets:
  assumes "mode (props f) \<noteq> ASSEMBLED \<or> length (photos (props f)) < 2"
    and "\<forall>g \<in> set gs. elapsedTime f \<le> elapsedTime g \<and> elapsedTime g \<le> elapsedTime f + 6"
  shows "active (showcaseSystemRef (useFrame c f)) = []
       \<and> phase (showcaseSystemRef (useFrame c f)) = COOLDOWN
       \<and> lapCounter (showcaseSystemRef (useFrame c f)) = 0
       \<and> cooldownUntil (showcaseSystemRef (useFrame c f)) = elapsedTime f + 6
       \<and> active (showcaseSystemRef (run (useFrame c f) gs)) = []
       \<and> phase (showcaseSystemRef (run (useFrame c f) gs)) = COOLDOWN"
proof -
  have now: "active (showcaseSystemRef (useFrame c f)) = []"
    "phase (showcaseSystemRef (useFrame c f)) = COOLDOWN"
    "lapCounter (showcaseSystemRef (useFrame c f)) = 0"
    "cooldownUntil (showcaseSystemRef (useFrame c f)) = elapsedTime f + 6"
    using assms(1) by (auto simp add: useFrame_def Let_def)
  have "elapsedTime f + 6 \<le> cooldownUntil (showcaseSystemRef (useFrame c f))"
    using now(4) by simp
  from reset_holds_run [OF now(1,2) this assms(2)] now show ?thesis by simp
qed

theorem leaving_assembled_resets_witness:
  "length (keys (active (showcaseSystemRef (orbiting 7 17 1)))) = 2
   \<and> active (showcaseSystemRef (useFrame (orbiting 7 17 1) (frameIn DISPERSED 14 0.2))) = []
   \<and> phase (showcaseSystemRef (useFrame (orbiting 7 17 1) (frameIn DISPERSED 14 0.2))) = COOLDOWN
   \<and> lapCounter (showcaseSystemRef (useFrame (orbiting 7 17 1) (frameIn DISPERSED 14 0.2))) = 0
   \<and> cooldownUntil (showcaseSystemRef (useFrame (orbiting 7 17 1) (frameIn DISPERSED 14 0.2))) = 20
   \<and> phase (showcaseSystemRef (run (useFrame (orbiting 7 17 1) (frameIn DISPERSED 14 0.2))
        [frame 15 1, frame 20 5])) = COOLDOWN"
proof -
  have h1: "mode (props (frameIn DISPERSED 14 0.2)) \<noteq> ASSEMBLED
      \<or> length (photos (props (frameIn DISPERSED 14 0.2))) < 2"
    by (simp add: frameIn_def)
  have h2: "\<forall>g \<in> set [frame 15 1, frame 20 5].
      elapsedTime (frameIn DISPERSED 14 0.2) \<le> elapsedTime g
      \<and> elapsedTime g \<le> elapsedTime (frameIn DISPERSED 14 0.2) + 6"
    by (simp add: frameIn_def frame_def)
  have k: "length (keys (active (showcaseSystemRef (orbiting 7 17 1)))) = 2"
    by (simp add: orbiting_def keys_def)
  have t: "elapsedTime (frameIn DISPERSED 14 0.2) + 6 = 20" by (simp add: frameIn_def)
  from leaving_assembled_resets [OF h1 h2, of "orbiting 7 17 1"] k
  show ?thesis unfolding t by simp
qed

subsection \<open>Step sizes and the lap counter\<close>

lemma floor_5_2: "\<lfloor>5 / (4 * pi)\<rfloor> = 0"
proof -
  have "5 / (4 * pi) < 1" using pi_ge_3 by (simp add: divide_less_eq)
  moreover have "0 \<le> 5 / (4 * pi)" by simp
  ultimately show ?thesis by (simp add: floor_eq_iff)
qed

lemma laps_quarter: "trackLaps (5 / 2) 0 0 = 0" "trackLaps 5 (5 / 2) 0 = 0"
  using floor_5_2 floor_5 by (simp_all add: trackLaps_def mult.commute)

lemma laps_10: "trackLaps 10 5 0 = 1"
  using floor_5 floor_10 by (simp add: trackLaps_def mult.commute)

lemma sample_steps:
  "useFrame (orbiting 7 0 0) (frame 9 2) = orbiting 7 5 0"
  "useFrame (orbiting 7 0 0) (frame 8 1) = orbiting 7 (5 / 2) 0"
  "useFrame (orbiting 7 (5 / 2) 0) (frame 9 1) = orbiting 7 5 0"
  "useFrame (orbiting 7 5 0) (frame 11 2) = orbiting 7 10 1"
  using orbit_frame [of 0 0 2 7 9] orbit_frame [of 0 0 1 7 8]
    orbit_frame [of 0 "5 / 2" 1 7 9] orbit_frame [of 0 5 2 7 11]
  by (simp_all add: laps_5 laps_quarter laps_10)

lemma frame_fields [simp]:
  "mode (props (frame t dt)) = ASSEMBLED"
  "length (photos (props (frame t dt))) = 2"
  "elapsedTime (frame t dt) = t"
  "delta (frame t dt) = dt"
  by (simp_all add: frame_def gallery_def)

theorem lap_counter_counts_crossings_witness:
  "prevSystemAngle (orbiting 7 0 0) = systemAngle (showcaseSystemRef (orbiting 7 0 0))
   \<and> staysActive (orbiting 7 0 0) [frame 9 2, frame 11 2]
   \<and> staysActive (orbiting 7 0 0) [frame 8 1, frame 9 1, frame 11 2]
   \<and> zoneFree (orbiting 7 0 0) [frame 9 2, frame 11 2]
   \<and> zoneFree (orbiting 7 0 0) [frame 8 1, frame 9 1, frame 11 2]
   \<and> elapsed [frame 9 2, frame 11 2] = elapsed [frame 8 1, frame 9 1, frame 11 2]
   \<and> systemAngle (showcaseSystemRef (run (orbiting 7 0 0) [frame 9 2, frame 11 2])) = 10
   \<and> lapCounter (showcaseSystemRef (run (orbiting 7 0 0) [frame 9 2, frame 11 2])) = 1
   \<and> lapCounter (showcaseSystemRef (run (orbiting 7 0 0) [frame 8 1, frame 9 1, frame 11 2])) = 1"
proof -
  let ?c = "orbiting 7 0 0"
  let ?fs = "[frame 9 2, frame 11 2]"
  let ?gs = "[frame 8 1, frame 9 1, frame 11 2]"
  have h1: "prevSystemAngle ?c = systemAngle (showcaseSystemRef ?c)" by simp
  have small: "(5::real) < 2 * pi" using pi_ge_3 by simp
  have h2: "staysActive ?c ?fs" using small by (simp add: sample_steps)
  have h3: "staysActive ?c ?gs" using small by (simp add: sample_steps)
  have z: "\<not> inPresentationZone (showcaseSystemRef (orbiting 7 a 0)) t" for a t
    by (intro no_zone) simp
  have z2: "zoneFree ?c ?fs" by (simp add: sample_steps z)
  have z3: "zoneFree ?c ?gs" by (simp add: sample_steps z)
  have e: "elapsed ?fs = elapsed ?gs" by (simp add: elapsed_def)
  have r: "run ?c ?fs = orbiting 7 10 1"
    by (simp only: run_def foldl.simps sample_steps)
  have a: "systemAngle (showcaseSystemRef (run ?c ?fs)) = 10"
    unfolding r by simp
  note both = lap_counter_counts_crossings [OF h1 h2 h3]
  from both have "int (lapCounter (showcaseSystemRef (run ?c ?fs))) = 1"
    unfolding a using floor_10 by simp
  then have l: "lapCounter (showcaseSystemRef (run ?c ?fs)) = 1" by simp
  from both z2 z3 e have "lapCounter (showcaseSystemRef (run ?c ?fs))
      = lapCounter (showcaseSystemRef (run ?c ?gs))" by blast
  with l have l2: "lapCounter (showcaseSystemRef (run ?c ?gs)) = 1" by simp
  from h1 h2 h3 z2 z3 e a l l2 show ?thesis by (intro conjI)
qed

lemma js_rem_more:
  "js_rem (13 * pi / 3) (pi * 2) = pi / 3"
  "js_rem (7 * pi / 3) (pi * 2) = pi / 3"
  "js_rem (16 * pi / 3) (pi * 2) = 4 * pi / 3"
  "js_rem (10 * pi / 3) (pi * 2) = 4 * pi / 3"
  "js_rem pi (pi * 2) = pi"
  "js_rem (3 * pi) (pi * 2) = pi"
  using js_rem_pi [of "13 / 3"] js_rem_pi [of "7 / 3"] js_rem_pi [of "16 / 3"]
    js_rem_pi [of "10 / 3"] js_rem_pi [of 1] js_rem_pi [of 3]
  by simp_all

lemma pd_side: "presentationDist (13 * pi / 3) 0 = pi / 6"
proof -
  have "pi / 3 + pi * 2 = 7 * pi / 3" by simp
  then show ?thesis
    by (simp add: presentationDist_def Let_def js_rem_more)
qed

lemma pd_back: "presentationDist (13 * pi / 3) pi = 5 * pi / 6"
proof -
  have "13 * pi / 3 + pi = 16 * pi / 3" "4 * pi / 3 + pi * 2 = 10 * pi / 3" by simp_all
  then show ?thesis
    by (simp add: presentationDist_def Let_def js_rem_more)
qed

lemma js_rem_turn: "js_rem a (2 * pi) = js_rem a (pi * 2)"
  by (simp add: mult.commute)

lemma sd_far: "slotDiff (10 * pi) 0 (9 * pi / 2) (partA t0 pr) = pi / 2"
proof -
  have "pi / 2 + 2 * pi = 5 * pi / 2" "pi + 2 * pi = 3 * pi" by simp_all
  then show ?thesis
    by (simp add: slotDiff_def Let_def partA_def js_rem_turn js_rem_values js_rem_more)
qed

lemma laps_more:
  "trackLaps (13 * pi / 3) (5 * pi / 2) (Suc 0) = 2"
  "trackLaps (73 * pi / 12) (13 * pi / 3) 2 = 3"
  "trackLaps (9 * pi / 2) (13 * pi / 3) 2 = 2"
  "trackLaps (469 * pi / 100) (9 * pi / 2) 2 = 2"
proof -
  have "13 * pi / 3 / (pi * 2) = 13 / 6" "5 * pi / 2 / (pi * 2) = 5 / 4"
    "73 * pi / 12 / (pi * 2) = 73 / 24" "9 * pi / 2 / (pi * 2) = 9 / 4"
    "469 * pi / 100 / (pi * 2) = 469 / 200"
    by simp_all
  then show "trackLaps (13 * pi / 3) (5 * pi / 2) (Suc 0) = 2"
    "trackLaps (73 * pi / 12) (13 * pi / 3) 2 = 3"
    "trackLaps (9 * pi / 2) (13 * pi / 3) 2 = 2"
    "trackLaps (469 * pi / 100) (9 * pi / 2) 2 = 2"
    by (simp_all add: trackLaps_def)
qed

lemma presenting_fields [simp]:
  "systemAngle (showcaseSystemRef (presenting t0 ang lc)) = ang"
  "prevSystemAngle (presenting t0 ang lc) = ang"
  "lapCounter (showcaseSystemRef (presenting t0 ang lc)) = lc"
  "phase (showcaseSystemRef (presenting t0 ang lc)) = ACTIVE"
  "spinRef (presenting t0 ang lc) = 0"
  by (simp_all add: presenting_def)

lemma physics_sample [simp]:
  "physics (orbiting t0 ang lc) ASSEMBLED dt = orbiting t0 ang lc"
  "physics (presenting t0 ang lc) ASSEMBLED dt = presenting t0 ang lc"
  by (simp_all add: physics_def Let_def orbiting_def presenting_def)

lemma sample_active:
  "useFrame (orbiting t0 ang lc) (frame t dt) = activeStep t dt (orbiting t0 ang lc)"
  "useFrame (presenting t0 ang lc) (frame t dt) = activeStep t dt (presenting t0 ang lc)"
  using useFrame_active [of "frame t dt" "orbiting t0 ang lc"]
    useFrame_active [of "frame t dt" "presenting t0 ang lc"]
  by simp_all

lemma side_not_zone:
  "\<not> inPresentationZone (showcaseSystemRef (orbiting t0 (13 * pi / 3) lc)) t"
proof -
  have "3 \<le> pi" by (rule pi_ge_3)
  then have "\<not> pi / 6 < 4 / 10" "\<not> 5 * pi / 6 < 4 / 10" by simp_all
  then show ?thesis
    by (simp add: inPresentationZone_def orbiting_sys partA_def partB_def pd_side pd_back)
qed

lemma front_zone:
  assumes "t0 \<le> t"
  shows "inPresentationZone (showcaseSystemRef (presenting t0 (9 * pi / 2) 2)) t"
  using assms by (simp add: inPresentationZone_def presenting_def partA_def pd_A)

text \<open>The frame that brings the orbit to 13\<pi>/3 with two laps counted and nobody marked.\<close>

lemma approach_frame:
  "useFrame (orbiting t0 (5 * pi / 2) 1) (frame t (11 * pi / 15)) = orbiting t0 (13 * pi / 3) 2"
proof -
  let ?c = "orbiting t0 (5 * pi / 2) 1"
  have z: "\<not> inPresentationZone (showcaseSystemRef ?c) t"
    by (intro no_zone) simp
  have a: "5 * pi / 2 + 2.5 * (11 * pi / 15) = 13 * pi / 3" by simp
  have "3 \<le> pi" by (rule pi_ge_3)
  then have far: "\<not> pi / 6 < 1 / 10" "\<not> 5 * pi / 6 < 1 / 10" by simp_all
  have m: "markPresented t 2 (13 * pi / 3) [(''A'', partA t0 False), (''B'', partB t0 False)]
      = [(''A'', partA t0 False), (''B'', partB t0 False)]"
    using far by (simp add: markPresented_def partA_def partB_def pd_side pd_back)
  have r: "returning t 0 False (13 * pi / 3) [(''A'', partA t0 False), (''B'', partB t0 False)] = []"
    by (simp add: returning_def keys_def partA_def partB_def)
  show ?thesis
    unfolding sample_active activeStep_def Let_def
    using z by (simp add: a laps_more orbiting_parts m r cleanup_nil) (simp add: orbiting_def)
qed

text \<open>From there a short frame puts A exactly in front: A is marked, nobody returns.\<close>

lemma short_frame:
  assumes "t0 \<le> 10 * pi"
  shows "useFrame (orbiting t0 (13 * pi / 3) 2) (frame (10 * pi) (pi / 15))
     = presenting t0 (9 * pi / 2) 2"
proof -
  let ?c = "orbiting t0 (13 * pi / 3) 2"
  have a: "13 * pi / 3 + 2.5 * (pi / 15) = 9 * pi / 2" by simp
  have "2 \<le> pi" by (rule pi_ge_two)
  then have far: "\<not> pi < 1 / 10" "\<not> pi / 2 < 3 / 10" by simp_all
  have m: "markPresented (10 * pi) 2 (9 * pi / 2)
        [(''A'', partA t0 False), (''B'', partB t0 False)]
      = [(''A'', partA t0 True), (''B'', partB t0 False)]"
    using far assms by (simp add: markPresented_def partA_def partB_def pd_A pd_B)
  have "hasPresented (partA t0 True)" "\<not> hasPresented (partB t0 False)"
    by (simp_all add: partA_def partB_def)
  then have r: "returning (10 * pi) 0 False (9 * pi / 2)
        [(''A'', partA t0 True), (''B'', partB t0 False)] = []"
    using far by (simp add: returning_def keys_def sd_far)
  show ?thesis
    unfolding sample_active activeStep_def Let_def
    using side_not_zone [of t0 2 "10 * pi"]
    by (simp add: a laps_more orbiting_parts m r cleanup_nil) (simp add: orbiting_def presenting_def)
qed

lemma slow_frame:
  assumes "t0 \<le> t"
  shows "lapCounter (showcaseSystemRef
           (useFrame (presenting t0 (9 * pi / 2) 2) (frame t (19 * pi / 30)))) = 2"
proof -
  have a: "systemAngle (showcaseSystemRef
      (activeStep t (19 * pi / 30) (presenting t0 (9 * pi / 2) 2))) = 469 * pi / 100"
    unfolding activeStep_angle using front_zone [OF assms] by simp
  show ?thesis
    unfolding sample_active activeStep_lapCounter a by (simp add: laps_more)
qed

lemma long_frame:
  "lapCounter (showcaseSystemRef
     (useFrame (orbiting t0 (13 * pi / 3) 2) (frame t (7 * pi / 10)))) = 3"
proof -
  have a: "systemAngle (showcaseSystemRef
      (activeStep t (7 * pi / 10) (orbiting t0 (13 * pi / 3) 2))) = 73 * pi / 12"
    unfolding activeStep_angle using side_not_zone [of t0 2 t] by simp
  show ?thesis
    unfolding sample_active activeStep_lapCounter a by (simp add: laps_more)
qed

lemma run_append: "run c (fs @ gs) = run (run c fs) gs"
  by (simp add: run_def)

lemma warmup_run:
  "run (initialPhotoCloud ASSEMBLED) warmup = orbiting (41 * pi / 5) (13 * pi / 3) 2"
proof -
  have "2 \<le> pi" by (rule pi_ge_two)
  then have "6 < 41 * pi / 5" by simp
  then have sf: "useFrame (initialPhotoCloud ASSEMBLED) (frame (41 * pi / 5) 0.016)
      = orbiting (41 * pi / 5) 0 0"
    by (rule start_frame)
  have one: "useFrame (orbiting (41 * pi / 5) 0 0) (frame (46 * pi / 5) pi)
      = orbiting (41 * pi / 5) (5 * pi / 2) 1"
    using orbit_frame [of 0 0 pi "41 * pi / 5" "46 * pi / 5"] by (simp add: laps_first)
  show ?thesis
    by (simp only: warmup_def run_def foldl.simps sf one approach_frame)
qed

lemma zone_sampling:
  "lapCounter (showcaseSystemRef (run (initialPhotoCloud ASSEMBLED)
      (warmup @ [frame (319 * pi / 30) (7 * pi / 10)]))) = 3"
  "lapCounter (showcaseSystemRef (run (initialPhotoCloud ASSEMBLED)
      (warmup @ [frame (10 * pi) (pi / 15), frame (319 * pi / 30) (19 * pi / 30)]))) = 2"
  "staysActive (run (initialPhotoCloud ASSEMBLED) warmup) [frame (319 * pi / 30) (7 * pi / 10)]"
  "staysActive (run (initialPhotoCloud ASSEMBLED) warmup)
      [frame (10 * pi) (pi / 15), frame (319 * pi / 30) (19 * pi / 30)]"
  "elapsed [frame (319 * pi / 30) (7 * pi / 10)]
     = elapsed [frame (10 * pi) (pi / 15), frame (319 * pi / 30) (19 * pi / 30)]"
proof -
  have "2 \<le> pi" by (rule pi_ge_two)
  then have t: "41 * pi / 5 \<le> 10 * pi" "41 * pi / 5 \<le> 319 * pi / 30" by simp_all
  note short = short_frame [OF t(1)]
  show "lapCounter (showcaseSystemRef (run (initialPhotoCloud ASSEMBLED)
      (warmup @ [frame (319 * pi / 30) (7 * pi / 10)]))) = 3"
    unfolding run_append warmup_run by (simp only: run_def foldl.simps long_frame)
  show "lapCounter (showcaseSystemRef (run (initialPhotoCloud ASSEMBLED)
      (warmup @ [frame (10 * pi) (pi / 15), frame (319 * pi / 30) (19 * pi / 30)]))) = 2"
    unfolding run_append warmup_run
    by (simp only: run_def foldl.simps short slow_frame [OF t(2)])
  show "staysActive (run (initialPhotoCloud ASSEMBLED) warmup)
      [frame (319 * pi / 30) (7 * pi / 10)]"
    unfolding warmup_run by simp
  show "staysActive (run (initialPhotoCloud ASSEMBLED) warmup)
      [frame (10 * pi) (pi / 15), frame (319 * pi / 30) (19 * pi / 30)]"
    unfolding warmup_run by (simp add: short)
  show "elapsed [frame (319 * pi / 30) (7 * pi / 10)]
     = elapsed [frame (10 * pi) (pi / 15), frame (319 * pi / 30) (19 * pi / 30)]"
    by (simp add: elapsed_def)
qed

text \<open>
  C2 as stated fails in two ways. After a start at time 7 with systemAngle 0, one frame of
  6.8 time units takes systemAngle to 17, past 2\<pi> and 4\<pi>, and lapCounter to 1, while two
  frames of 3.4 time units reach the same angle with lapCounter 2: a frame that advances
  a full turn or more still counts one lap. And with every step below that bound, from
  the state reached by the three warm-up frames (angle 13\<pi>/3, two laps), one frame of
  7\<pi>/10 runs at speed 2.5 to 73\<pi>/12 and counts a third lap, while frames of \<pi>/15 and
  19\<pi>/30 cover the same time but the second is sampled with A in front of the camera,
  runs at speed 0.3 and ends at 469\<pi>/100 with two laps.
\<close>

theorem lap_counter_step_size_counterexample:
  "lapCounter (showcaseSystemRef
     (run (initialPhotoCloud ASSEMBLED) [frame 7 0.016, frame 13.8 6.8])) = 1
   \<and> lapCounter (showcaseSystemRef
     (run (initialPhotoCloud ASSEMBLED) [frame 7 0.016, frame 10.4 3.4, frame 13.8 3.4])) = 2
   \<and> systemAngle (showcaseSystemRef
     (run (initialPhotoCloud ASSEMBLED) [frame 7 0.016])) = 0
   \<and> systemAngle (showcaseSystemRef
     (run (initialPhotoCloud ASSEMBLED) [frame 7 0.016, frame 13.8 6.8])) = 17
   \<and> systemAngle (showcaseSystemRef
     (run (initialPhotoCloud ASSEMBLED) [frame 7 0.016, frame 10.4 3.4, frame 13.8 3.4])) = 17
   \<and> \<lfloor>17 / (2 * pi)\<rfloor> - \<lfloor>0 / (2 * pi)\<rfloor> = 2
   \<and> staysActive (run (initialPhotoCloud ASSEMBLED) warmup)
        [frame (319 * pi / 30) (7 * pi / 10)]
   \<and> staysActive (run (initialPhotoCloud ASSEMBLED) warmup)
        [frame (10 * pi) (pi / 15), frame (319 * pi / 30) (19 * pi / 30)]
   \<and> elapsed [frame (319 * pi / 30) (7 * pi / 10)]
        = elapsed [frame (10 * pi) (pi / 15), frame (319 * pi / 30) (19 * pi / 30)]
   \<and> lapCounter (showcaseSystemRef (run (initialPhotoCloud ASSEMBLED)
        (warmup @ [frame (319 * pi / 30) (7 * pi / 10)]))) = 3
   \<and> lapCounter (showcaseSystemRef (run (initialPhotoCloud ASSEMBLED)
        (warmup @ [frame (10 * pi) (pi / 15), frame (319 * pi / 30) (19 * pi / 30)]))) = 2"
proof -
  have "run (initialPhotoCloud ASSEMBLED) [frame 7 0.016] = orbiting 7 0 0"
    by (simp add: run_def start_frame)
  then have "systemAngle (showcaseSystemRef
     (run (initialPhotoCloud ASSEMBLED) [frame 7 0.016])) = 0"
    by simp
  moreover have "lapCounter (showcaseSystemRef
     (run (initialPhotoCloud ASSEMBLED) [frame 7 0.016, frame 13.8 6.8])) = 1"
    "systemAngle (showcaseSystemRef
     (run (initialPhotoCloud ASSEMBLED) [frame 7 0.016, frame 13.8 6.8])) = 17"
    unfolding big_step by simp_all
  moreover have "\<lfloor>17 / (2 * pi)\<rfloor> - \<lfloor>0 / (2 * pi)\<rfloor> = 2"
    using floor_17 by simp
  moreover note half_steps zone_sampling
  ultimately show ?thesis by (intro conjI)
qed

end
